theory Spec2Isabelle
  imports Main "HOL-Library.Char_ord" "HOL-Library.List_Lexorder" "HOL-Library.Word"
begin

text \<open>
  A shallow embedding of four parts of the operator and command-line support code:
  the printer of discovery sync status, the walker that reports the differences between
  an installed spec and its baseline, the composer of the bootstrap bundle of a
  workload, and the walker that validates an operator spec against a table of rules.
  The definitions come first, part by part; the theorems follow.
\<close>

unbundle bit_operations_syntax

section \<open>Common Go idioms\<close>

text \<open>
  Go strings are byte strings, modelled as \<open>string\<close>. \<open>strings.Join\<close> of the Go
  standard library puts the separator between consecutive elements.
\<close>

fun Join :: "string list \<Rightarrow> string \<Rightarrow> string" where
  "Join [] sep = []"
| "Join [x] sep = x"
| "Join (x # y # ys) sep = x @ sep @ Join (y # ys) sep"

text \<open>Decimal rendering of a non-negative integer, as the verb \<open>%d\<close> prints it.\<close>

definition digit :: "nat \<Rightarrow> char" where
  "digit d = char_of (48 + d)"

function itoa :: "nat \<Rightarrow> string" where
  "itoa n = (if n < 10 then [digit n] else itoa (n div 10) @ [digit (n mod 10)])"
  by pat_completeness auto
termination
  by (relation "measure (\<lambda>n. n)") auto

declare itoa.simps [simp del]

text \<open>
  A panic of the Go runtime is an outcome of its own, apart from the values (among them
  error values) that a function returns.
\<close>

datatype 'a outcome = Panics | Returns 'a

definition TAB :: string where
  "TAB = [CHR 0x09]"

definition NL :: string where
  "NL = [CHR 0x0A]"

section \<open>Sync status printer (package pilot)\<close>

subsection \<open>Data\<close>

text \<open>
  Modelled from the spec: the type \<open>xds.SyncStatus\<close> embedded in \<open>writerStatus\<close> is
  declared outside the given sources. The printer reads the proxy id, the two version
  strings, the four legacy sent/acked nonce pairs and the generic per-type map
  \<open>Statuses\<close>, whose entries carry a sent and an acked nonce. Indexing a Go map at a
  missing key gives the zero value of the entry type, here a pair of empty nonces.
\<close>

record XdsNonces =
  NonceSent :: string
  NonceAcked :: string

record SyncStatus =
  ProxyID :: string
  ProxyVersion :: string
  IstioVersion :: string
  ClusterSent :: string
  ClusterAcked :: string
  ListenerSent :: string
  ListenerAcked :: string
  RouteSent :: string
  RouteAcked :: string
  EndpointSent :: string
  EndpointAcked :: string
  Statuses :: "string \<rightharpoonup> XdsNonces"

record writerStatus = SyncStatus +
  pilot :: string

definition zeroNonces :: XdsNonces where
  "zeroNonces = \<lparr>NonceSent = [], NonceAcked = []\<rparr>"

definition StatusesAt :: "'a writerStatus_scheme \<Rightarrow> string \<Rightarrow> XdsNonces" where
  "StatusesAt sw k = (case Statuses sw k of None \<Rightarrow> zeroNonces | Some e \<Rightarrow> e)"

subsection \<open>Label derivation\<close>

definition xdsStatus :: "string \<Rightarrow> string \<Rightarrow> string" where
  "xdsStatus sent acked =
     (if sent = [] then ''NOT SENT''
      else if sent = acked then ''SYNCED''
      else if acked = [] then ''STALE (Never Acknowledged)''
      else ''STALE'')"

subsection \<open>Printing one row\<close>

text \<open>
  \<open>statusColumn\<close> is the body of the loop over \<open>XDSCols\<close> in \<open>statusPrintln\<close>: the
  label is first computed from the generic entry at \<open>v3.GetShortType ty\<close>, then the
  \<open>switch\<close> on the column name assigns it again for the four named columns.
  \<open>v3.GetShortType\<close> lives outside the given sources and is a parameter \<open>gst\<close>.
\<close>

definition statusColumn :: "(string \<Rightarrow> string) \<Rightarrow> 'a writerStatus_scheme \<Rightarrow> string \<Rightarrow> string" where
  "statusColumn gst sw ty =
     (let curStatus = xdsStatus (NonceSent (StatusesAt sw (gst ty)))
                                (NonceAcked (StatusesAt sw (gst ty)))
      in if ty = ''CDS'' then xdsStatus (ClusterSent sw) (ClusterAcked sw)
         else if ty = ''LDS'' then xdsStatus (ListenerSent sw) (ListenerAcked sw)
         else if ty = ''RDS'' then xdsStatus (RouteSent sw) (RouteAcked sw)
         else if ty = ''EDS'' then xdsStatus (EndpointSent sw) (EndpointAcked sw)
         else curStatus)"

fun statusLoop :: "(string \<Rightarrow> string) \<Rightarrow> 'a writerStatus_scheme \<Rightarrow> string list \<Rightarrow> string list \<Rightarrow> string list" where
  "statusLoop gst sw [] statuses = statuses"
| "statusLoop gst sw (ty # tys) statuses =
     statusLoop gst sw tys (statuses @ [statusColumn gst sw ty])"

text \<open>
  \<open>statusPrintln\<close> writes one line to the tab writer and returns no error; the model
  returns the text written.
\<close>

definition statusPrintln :: "(string \<Rightarrow> string) \<Rightarrow> string list \<Rightarrow> 'a writerStatus_scheme \<Rightarrow> string" where
  "statusPrintln gst XDSCols sw =
     (let statuses = statusLoop gst sw XDSCols [];
          version = (if IstioVersion sw = [] then ProxyVersion sw @ ''*'' else IstioVersion sw)
      in ProxyID sw @ TAB @ Join statuses TAB @ TAB @ pilot sw @ TAB @ version @ NL)"

text \<open>
  An instance of the parameter \<open>gst\<close> for concrete rows: a column name that is
  already a short type name is returned as it is.
\<close>

definition shortName :: "string \<Rightarrow> string" where
  "shortName ty = ty"

text \<open>
  A row as a newer control plane that fills only the generic map would send it: the
  cluster nonces sit in \<open>Statuses\<close> under CDS, acknowledged, and the legacy fields are
  empty.
\<close>

definition genericOnlyRow :: writerStatus where
  "genericOnlyRow =
     \<lparr>ProxyID = ''sidecar.default'', ProxyVersion = ''1.9.0'', IstioVersion = ''1.9.0'',
      ClusterSent = [], ClusterAcked = [], ListenerSent = [], ListenerAcked = [],
      RouteSent = [], RouteAcked = [], EndpointSent = [], EndpointAcked = [],
      Statuses = [''CDS'' \<mapsto> \<lparr>NonceSent = ''n1'', NonceAcked = ''n1''\<rparr>],
      pilot = ''istiod-1''\<rparr>"

subsection \<open>Printing discovery responses\<close>

text \<open>
  The discovery-protocol messages come from an external library. A resource is a type
  URL with payload bytes; a response carries its resources and the identifier of the
  control plane that sent it. A \<open>ClientConfig\<close> names a node and lists one entry per
  discovery type, each with the rendering of its status. Decoding a payload
  (\<open>UnmarshalTo\<close>) and reading the control-plane information (\<open>multixds.CpInfo\<close>) are
  outside the given sources and are parameters \<open>um\<close> and \<open>cp\<close>; \<open>cp\<close> returns the
  identifier and the version.
\<close>

record Any =
  TypeUrl :: string
  Value :: string

record DiscoveryResponse =
  Resources :: "Any list"
  ControlPlane :: string

datatype PerXdsKind =
  ListenerConfig | ClusterConfig | RouteConfig | EndpointConfig | ScopedRouteConfig | OtherConfig

record PerXdsConfig =
  Config :: PerXdsKind
  Status :: string

record ClientConfig =
  NodeId :: string
  XdsConfig :: "PerXdsConfig list"

record xdsWriterStatus =
  proxyID :: string
  istiodID :: string
  istiodVersion :: string
  clusterStatus :: string
  listenerStatus :: string
  routeStatus :: string
  endpointStatus :: string

fun getSyncStatusLoop :: "PerXdsConfig list \<Rightarrow> string \<times> string \<times> string \<times> string
    \<Rightarrow> string \<times> string \<times> string \<times> string" where
  "getSyncStatusLoop [] acc = acc"
| "getSyncStatusLoop (config # configs) (cds, lds, eds, rds) =
     (case Config config of
        ListenerConfig \<Rightarrow> getSyncStatusLoop configs (cds, Status config, eds, rds)
      | ClusterConfig \<Rightarrow> getSyncStatusLoop configs (Status config, lds, eds, rds)
      | RouteConfig \<Rightarrow> getSyncStatusLoop configs (cds, lds, eds, Status config)
      | EndpointConfig \<Rightarrow> getSyncStatusLoop configs (cds, lds, Status config, rds)
      | ScopedRouteConfig \<Rightarrow> getSyncStatusLoop configs (cds, lds, eds, rds)
      | OtherConfig \<Rightarrow> getSyncStatusLoop configs (cds, lds, eds, rds))"

definition getSyncStatus :: "PerXdsConfig list \<Rightarrow> string \<times> string \<times> string \<times> string" where
  "getSyncStatus configs = getSyncStatusLoop configs ([], [], [], [])"

text \<open>
  The state of \<open>XdsStatusWriter.setupStatusPrint\<close>: the bytes written so far to
  \<open>s.Writer\<close> (an in-memory sink; the passthrough branch discards the result of
  \<open>Write\<close>), the tab writer \<open>w\<close> (\<open>None\<close> is the nil pointer, otherwise the text
  buffered in it) and the rows gathered. A \<open>nil\<close> slice and an empty slice are both
  the empty list.
\<close>

record xdsPrintState =
  sink :: string
  w :: "string option"
  fullStatus :: "xdsWriterStatus list"

definition ClientConfigTypeUrl :: string where
  "ClientConfigTypeUrl = ''type.googleapis.com/envoy.service.status.v3.ClientConfig''"

definition xdsHeader :: string where
  "xdsHeader = ''NAME'' @ TAB @ ''CDS'' @ TAB @ ''LDS'' @ TAB @ ''EDS'' @ TAB @ ''RDS'' @ TAB
     @ ''ISTIOD'' @ TAB @ ''VERSION'' @ NL"

text \<open>The inner loop of the \<open>default\<close> branch: every resource of the response is written.\<close>

fun writeResources :: "Any list \<Rightarrow> string \<Rightarrow> string" where
  "writeResources [] snk = snk"
| "writeResources (resource # rest) snk = writeResources rest (snk @ Value resource)"

text \<open>
  The loop over the resources of one response. \<open>sort.Slice\<close> orders the rows by
  \<open>proxyID\<close>; it is modelled by a stable sort. An error return carries the message and
  the bytes already written.
\<close>

fun resourcesLoop :: "(Any \<Rightarrow> string + ClientConfig) \<Rightarrow> (DiscoveryResponse \<Rightarrow> string \<times> string)
    \<Rightarrow> nat \<Rightarrow> DiscoveryResponse \<Rightarrow> Any list \<Rightarrow> xdsPrintState \<Rightarrow> (string \<times> string) + xdsPrintState" where
  "resourcesLoop um cp n dr [] st = Inr st"
| "resourcesLoop um cp n dr (resource # rest) st =
     (if TypeUrl resource = ClientConfigTypeUrl then
        (case um resource of
           Inl err \<Rightarrow> Inl (''could not unmarshal ClientConfig: '' @ err, sink st)
         | Inr clientConfig \<Rightarrow>
             (case getSyncStatus (XdsConfig clientConfig) of (cds, lds, eds, rds) \<Rightarrow>
              (case cp dr of (cpID, cpVersion) \<Rightarrow>
                 (let fs = fullStatus st @
                        [\<lparr>proxyID = NodeId clientConfig, istiodID = cpID, istiodVersion = cpVersion,
                          clusterStatus = cds, listenerStatus = lds, routeStatus = rds,
                          endpointStatus = eds\<rparr>]
                  in if length fs = 0
                     then Inl (''no proxies found (checked '' @ itoa n @ '' istiods)'', sink st)
                     else resourcesLoop um cp n dr rest
                            (st\<lparr>w := Some xdsHeader, fullStatus := sort_key proxyID fs\<rparr>)))))
      else resourcesLoop um cp n dr rest
             (st\<lparr>sink := writeResources (Resources dr) (sink st), fullStatus := []\<rparr>))"

text \<open>
  The loop over the map of responses; the list gives the entries in the order in which
  the map iteration visits them.
\<close>

fun responsesLoop :: "(Any \<Rightarrow> string + ClientConfig) \<Rightarrow> (DiscoveryResponse \<Rightarrow> string \<times> string)
    \<Rightarrow> nat \<Rightarrow> (string \<times> DiscoveryResponse) list \<Rightarrow> xdsPrintState \<Rightarrow> (string \<times> string) + xdsPrintState" where
  "responsesLoop um cp n [] st = Inr st"
| "responsesLoop um cp n ((k, dr) # drs) st =
     (case resourcesLoop um cp n dr (Resources dr) st of
        Inl e \<Rightarrow> Inl e
      | Inr st' \<Rightarrow> responsesLoop um cp n drs st')"

definition XdsStatusWriter_setupStatusPrint :: "(Any \<Rightarrow> string + ClientConfig)
    \<Rightarrow> (DiscoveryResponse \<Rightarrow> string \<times> string) \<Rightarrow> string
    \<Rightarrow> (string \<times> DiscoveryResponse) list \<Rightarrow> (string \<times> string) + xdsPrintState" where
  "XdsStatusWriter_setupStatusPrint um cp writer drs =
     responsesLoop um cp (length drs) drs \<lparr>sink = writer, w = None, fullStatus = []\<rparr>"

definition xdsStatusPrintln :: "xdsWriterStatus \<Rightarrow> string" where
  "xdsStatusPrintln status =
     proxyID status @ TAB @ clusterStatus status @ TAB @ listenerStatus status @ TAB
     @ endpointStatus status @ TAB @ routeStatus status @ TAB @ istiodID status @ TAB
     @ istiodVersion status @ NL"

text \<open>
  The printing loop of \<open>PrintAll\<close>: each row is written into the tab writer; writing
  through a nil tab writer panics.
\<close>

fun printRows :: "xdsWriterStatus list \<Rightarrow> string option \<Rightarrow> string option outcome" where
  "printRows [] tw = Returns tw"
| "printRows (status # rest) None = Panics"
| "printRows (status # rest) (Some buf) = printRows rest (Some (buf @ xdsStatusPrintln status))"

text \<open>
  \<open>PrintAll\<close> returns its error (\<open>None\<close> is \<open>nil\<close>) and the content of the sink.
  \<open>Flush\<close> sends the buffered text, laid out in columns by the parameter \<open>layout\<close> (the
  standard tab writer), to the sink.
\<close>

definition XdsStatusWriter_PrintAll :: "(Any \<Rightarrow> string + ClientConfig)
    \<Rightarrow> (DiscoveryResponse \<Rightarrow> string \<times> string) \<Rightarrow> (string \<Rightarrow> string) \<Rightarrow> string
    \<Rightarrow> (string \<times> DiscoveryResponse) list \<Rightarrow> (string option \<times> string) outcome" where
  "XdsStatusWriter_PrintAll um cp layout writer statuses =
     (case XdsStatusWriter_setupStatusPrint um cp writer statuses of
        Inl (err, snk) \<Rightarrow> Returns (Some err, snk)
      | Inr st \<Rightarrow>
          (case printRows (fullStatus st) (w st) of
             Panics \<Rightarrow> Panics
           | Returns None \<Rightarrow> Returns (None, sink st)
           | Returns (Some buf) \<Rightarrow> Returns (None, sink st @ layout buf)))"

section \<open>Diff walker (istioctl revision)\<close>

text \<open>
  The trees compared are decoded documents: \<open>nil\<close>, a map from strings to trees, a
  sequence of trees, a string, or another scalar. The scalars other than strings are
  a type parameter, compared by equality (values for which Go's \<open>==\<close> is reflexive).
  A map is the list of its entries in the order in which the iteration visits them;
  indexing a map at a missing key gives \<open>nil\<close>.
\<close>

datatype 's jval =
    JNil
  | is_JMap: JMap "(string \<times> 's jval) list"
  | is_JSeq: JSeq "'s jval list"
  | JString string
  | JScalar 's

record iopDiff =
  Path :: string
  Value :: string

definition HasPrefix :: "string \<Rightarrow> string \<Rightarrow> bool" where
  "HasPrefix s pre = (take (length pre) s = pre)"

fun Contains :: "string \<Rightarrow> string \<Rightarrow> bool" where
  "Contains [] sub = (sub = [])"
| "Contains (c # cs) sub = (HasPrefix (c # cs) sub \<or> Contains cs sub)"

text \<open>\<open>strings.ReplaceAll\<close> for a non-empty \<open>old\<close>: matches are replaced left to right.\<close>

function ReplaceAll :: "string \<Rightarrow> string \<Rightarrow> string \<Rightarrow> string" where
  "ReplaceAll [] old new = []"
| "ReplaceAll (c # cs) old new =
     (if old \<noteq> [] \<and> HasPrefix (c # cs) old
      then new @ ReplaceAll (drop (length old) (c # cs)) old new
      else c # ReplaceAll cs old new)"
  by pat_completeness auto
termination
  by (relation "measure (\<lambda>(s, old, new). length s)") auto

text \<open>
  The constants \<open>util.PathSeparator\<close> and \<open>util.EscapedPathSeparator\<close> are declared
  outside the given sources, and the verbs \<open>%q\<close> and \<open>%v\<close> belong to the standard
  formatter: the four are parameters of the walk.
\<close>

record 's diffEnv =
  PathSeparator :: string
  EscapedPathSeparator :: string
  fmtQ :: "string \<Rightarrow> string"
  fmtV :: "'s jval \<Rightarrow> string"

definition pathComponent :: "'s diffEnv \<Rightarrow> string \<Rightarrow> string" where
  "pathComponent E component =
     (if \<not> Contains component (PathSeparator E) then component
      else ReplaceAll component (PathSeparator E) (EscapedPathSeparator E))"

definition mapIndex :: "(string \<times> 's jval) list \<Rightarrow> string \<Rightarrow> 's jval" where
  "mapIndex m k = (case map_of m k of None \<Rightarrow> JNil | Some v \<Rightarrow> v)"

text \<open>
  \<open>diffWalk\<close> returns the records with an error (\<open>None\<close> is \<open>nil\<close>), or panics.
  \<open>diffWalkMap\<close> and \<open>diffWalkSeq\<close> are its two loops, over the entries still to visit,
  with the records accumulated so far; \<open>typedOrig[idx]\<close> panics when \<open>idx\<close> is not below
  the length of \<open>typedOrig\<close>.
\<close>

function diffWalk :: "'s diffEnv \<Rightarrow> string \<Rightarrow> string \<Rightarrow> 's jval \<Rightarrow> 's jval
      \<Rightarrow> (iopDiff list \<times> string option) outcome"
  and diffWalkMap :: "'s diffEnv \<Rightarrow> string \<Rightarrow> string \<Rightarrow> (string \<times> 's jval) list
      \<Rightarrow> (string \<times> 's jval) list \<Rightarrow> iopDiff list \<Rightarrow> (iopDiff list \<times> string option) outcome"
  and diffWalkSeq :: "'s diffEnv \<Rightarrow> string \<Rightarrow> nat \<Rightarrow> 's jval list
      \<Rightarrow> 's jval list \<Rightarrow> iopDiff list \<Rightarrow> (iopDiff list \<times> string option) outcome"
where
  "diffWalk E path separator (JMap v) orig =
     (case orig of
        JMap typedOrig \<Rightarrow> diffWalkMap E path separator v typedOrig []
      | _ \<Rightarrow> Returns ([], None))"
| "diffWalk E path separator (JSeq v) orig =
     (case orig of
        JSeq typedOrig \<Rightarrow> diffWalkSeq E path 0 v typedOrig []
      | _ \<Rightarrow> Returns ([], None))"
| "diffWalk E path separator (JString v) orig =
     (if JString v \<noteq> orig \<and> orig \<noteq> JNil
      then Returns ([\<lparr>Path = path, Value = fmtQ E v\<rparr>], None)
      else Returns ([], None))"
| "diffWalk E path separator (JScalar v) orig =
     (if JScalar v \<noteq> orig \<and> orig \<noteq> JNil
      then Returns ([\<lparr>Path = path, Value = fmtV E (JScalar v)\<rparr>], None)
      else Returns ([], None))"
| "diffWalk E path separator JNil orig =
     (if JNil \<noteq> orig \<and> orig \<noteq> JNil
      then Returns ([\<lparr>Path = path, Value = fmtV E JNil\<rparr>], None)
      else Returns ([], None))"
| "diffWalkMap E path separator [] typedOrig accum = Returns (accum, None)"
| "diffWalkMap E path separator ((key, vv) # rest) typedOrig accum =
     (case diffWalk E (path @ separator @ pathComponent E key) ''.'' vv (mapIndex typedOrig key) of
        Panics \<Rightarrow> Panics
      | Returns (childwalk, Some err) \<Rightarrow> Returns (accum, Some err)
      | Returns (childwalk, None) \<Rightarrow> diffWalkMap E path separator rest typedOrig (accum @ childwalk))"
| "diffWalkSeq E path idx [] typedOrig accum = Returns (accum, None)"
| "diffWalkSeq E path idx (vv # rest) typedOrig accum =
     (if idx < length typedOrig then
        (case diffWalk E (path @ ''['' @ itoa idx @ '']'') ''.'' vv (typedOrig ! idx) of
           Panics \<Rightarrow> Panics
         | Returns (indexwalk, Some err) \<Rightarrow> Returns (accum, Some err)
         | Returns (indexwalk, None) \<Rightarrow> diffWalkSeq E path (Suc idx) rest typedOrig (accum @ indexwalk))
      else Panics)"
  by pat_completeness auto
termination
  by (relation "measure (\<lambda>x. case x of
        Inl (E, p, s, obj, orig) \<Rightarrow> size obj
      | Inr (Inl (E, p, s, m, orig, acc)) \<Rightarrow> size_list (size_prod (\<lambda>_. 0) size) m
      | Inr (Inr (E, p, i, xs, orig, acc)) \<Rightarrow> size_list size xs)") auto

text \<open>A Go map holds each key once, in every map of the tree.\<close>

fun uniqueKeys :: "'s jval \<Rightarrow> bool" where
  "uniqueKeys (JMap m) = (distinct (map fst m) \<and> list_all (\<lambda>kv. uniqueKeys (snd kv)) m)"
| "uniqueKeys (JSeq xs) = list_all uniqueKeys xs"
| "uniqueKeys _ = True"

text \<open>
  An instance of the parameters of the walk for concrete trees whose scalars are
  natural numbers: the separator is a dot and its escaped form a backslash and a dot,
  strings are quoted without escapes, numbers are printed in decimal.
\<close>

definition quotePlain :: "string \<Rightarrow> string" where
  "quotePlain v = [CHR 0x22] @ v @ [CHR 0x22]"

fun renderPlain :: "nat jval \<Rightarrow> string" where
  "renderPlain (JScalar n) = itoa n"
| "renderPlain JNil = ''<nil>''"
| "renderPlain _ = []"

definition plainEnv :: "nat diffEnv" where
  "plainEnv = \<lparr>PathSeparator = ''.'', EscapedPathSeparator = [CHR 0x5C, CHR ''.''],
               fmtQ = quotePlain, fmtV = renderPlain\<rparr>"

definition installedTree :: "nat jval" where
  "installedTree =
     JMap [(''components'', JMap [(''pilot'', JMap [(''enabled'', JScalar 1)])]),
           (''hub'', JString ''gcr.io/istio-testing''),
           (''gateways'', JSeq [JString ''ingress'', JScalar 2, JNil])]"

section \<open>Bootstrap bundle composer (istioctl sidecar-bootstrap)\<close>

text \<open>
  Modelled from the spec: the type \<open>BootstrapBundle\<close> is declared outside the given
  sources. \<open>processBundle\<close> reads the CA certificate and the ingress gateway address
  (the mesh), the service-account token (the workload), and the container name, image,
  arguments, environment blob and host aliases of the sidecar. Byte slices are strings;
  \<open>os.FileMode\<close> is a 32-bit word.
\<close>

record BootstrapBundle =
  IstioCaCert :: string
  IstioIngressGatewayAddress :: string
  ServiceAccountToken :: string
  IstioProxyContainerName :: string
  IstioProxyImage :: string
  IstioProxyArgs :: "string list"
  IstioProxyEnvironment :: string
  IstioProxyHosts :: "string list"

record fileToCopy =
  name :: string
  dir :: string
  perm :: "32 word"
  data :: string

record cmdToExec =
  cmd :: string
  required :: bool

record bootstrapItems =
  filesToCopy :: "fileToCopy list"
  cmdsToExec :: "cmdToExec list"

text \<open>The loop over \<open>bundle.IstioProxyHosts\<close>, appending two words per host.\<close>

fun addHosts :: "string list \<Rightarrow> string \<Rightarrow> string list \<Rightarrow> string list" where
  "addHosts [] gw c = c"
| "addHosts (host # hosts) gw c = addHosts hosts gw (c @ [''--add-host'', host @ '':'' @ gw])"

text \<open>
  \<open>launchWords\<close> is the slice \<open>cmd\<close> of \<open>processBundle\<close> as it stands when it is
  joined: the fixed words, the words added per host, the image and the arguments.
  The modes \<open>0644\<close> and \<open>0640\<close> are octal: 420 and 416.
\<close>

definition launchWords :: "BootstrapBundle \<Rightarrow> string \<Rightarrow> string list" where
  "launchWords bundle remoteDir =
     (let c0 = [''docker'', ''run'', ''-d'', ''--name'', IstioProxyContainerName bundle,
                ''--restart'', ''unless-stopped'', ''--network'', ''host'',
                ''-v'', remoteDir @ ''/istio-ca.pem'' @ '':'' @ ''/var/run/secrets/istio/root-cert.pem'',
                ''-v'', remoteDir @ ''/istio-token'' @ '':'' @ ''/var/run/secrets/tokens/istio-token'',
                ''--env-file'', remoteDir @ ''/sidecar.env''];
          c1 = addHosts (IstioProxyHosts bundle) (IstioIngressGatewayAddress bundle) c0;
          c2 = c1 @ [IstioProxyImage bundle];
          c3 = c2 @ IstioProxyArgs bundle
      in c3)"

definition processBundle :: "BootstrapBundle \<Rightarrow> string \<Rightarrow> bootstrapItems" where
  "processBundle bundle remoteDir =
     (let configFilePerm = (420 :: 32 word);
          secretFilePerm = (416 :: 32 word);
          files = [] @
            [\<lparr>name = ''sidecar.env'', dir = remoteDir, perm = configFilePerm,
              data = IstioProxyEnvironment bundle\<rparr>,
             \<lparr>name = ''istio-ca.pem'', dir = remoteDir, perm = configFilePerm,
              data = IstioCaCert bundle\<rparr>,
             \<lparr>name = ''istio-token'', dir = remoteDir, perm = secretFilePerm,
              data = ServiceAccountToken bundle\<rparr>];
          commands = [] @
            [\<lparr>cmd = ''docker rm --force '' @ IstioProxyContainerName bundle, required = False\<rparr>,
             \<lparr>cmd = Join (launchWords bundle remoteDir) '' '', required = True\<rparr>]
      in \<lparr>filesToCopy = files, cmdsToExec = commands\<rparr>)"

text \<open>The bundle of the repository's own test of \<open>processBundle\<close>.\<close>

definition testBundle :: BootstrapBundle where
  "testBundle =
     \<lparr>IstioCaCert = ''Istio CA certs'', IstioIngressGatewayAddress = ''1.2.3.4'',
      ServiceAccountToken = ''k8s SA token'', IstioProxyContainerName = ''istio-proxy'',
      IstioProxyImage = ''proxyv2:latest'', IstioProxyArgs = [''proxy'', ''sidecar''],
      IstioProxyEnvironment = ''KEY=VALUE'',
      IstioProxyHosts = [''istiod.istio-system.svc'', ''zipkin.istio-monitoring.svc'']\<rparr>"

section \<open>Tree walker (operator validation)\<close>

subsection \<open>Values as reflection sees them\<close>

text \<open>
  The walker inspects its input by reflection. A value is a struct with its fields in
  declaration order (name, \<open>json\<close> tag if any, whether the field is exported, value), a
  map (the entries in iteration order, each key as \<open>key.String()\<close> renders it), a
  slice, a pointer, an interface-typed slot, a string or another scalar; \<open>None\<close> under
  a map, slice, pointer or interface is the nil one. The kind of a field is read off
  the constructor of its value.

  What is passed where Go expects \<open>interface{}\<close> is \<open>nil\<close>, a value, or a
  \<open>reflect.Value\<close> wrapping a value (\<open>None\<close> is the zero \<open>reflect.Value\<close>).
\<close>

datatype 's gval =
    GStruct "(string \<times> string option \<times> bool \<times> 's gval) list"
  | GMap "(string \<times> 's gval) list option"
  | GSlice "'s gval list option"
  | GPtr "'s gval option"
  | GIface "'s gval option"
  | GString string
  | GScalar 's

datatype 's dyn = NilIface | Dyn "'s gval" | Reflected "'s gval option"

text \<open>
  Errors are tagged by the place that produces them: the two type-mismatch errors of
  \<open>Validate\<close> (with the rendered path and the offending value), the required-field
  error of \<open>validateLeaf\<close> (with the display form of the path), and the errors returned
  by a rule function. \<open>util.Errors\<close> is a list; a nil and an empty list are the same.
\<close>

datatype ('s, 'e) verr =
    ExpectedPtr string "'s dyn"
  | ExpectedStruct string "'s gval option"
  | RequiredNotSet string
  | RuleError 'e

type_synonym Path = "string list"

type_synonym ('s, 'e) ValidatorFunc = "Path \<Rightarrow> 's dyn \<Rightarrow> 'e list"

text \<open>
  The helpers of package \<open>util\<close> (\<open>IsStruct\<close>, \<open>IsPtr\<close>, \<open>IsNilOrInvalidValue\<close>,
  \<open>IsValueNil\<close>, \<open>IsEmptyString\<close>, \<open>Path.String\<close>, \<open>ToYAMLPathString\<close>) and the
  functions \<open>getValidationFuncForPath\<close> and \<open>indexPathForSlice\<close> are declared outside
  the given sources: the walker takes them as parameters, gathered in one record.
\<close>

record ('s, 'e) util =
  IsStruct :: "'s dyn \<Rightarrow> bool"
  IsPtr :: "'s dyn \<Rightarrow> bool"
  IsNilOrInvalidValue :: "'s gval option \<Rightarrow> bool"
  IsValueNil :: "'s dyn \<Rightarrow> bool"
  IsEmptyString :: "'s dyn \<Rightarrow> bool"
  PathString :: "Path \<Rightarrow> string"
  ToYAMLPathString :: "string \<Rightarrow> string"
  getValidationFuncForPath :: "(string \<rightharpoonup> ('s, 'e) ValidatorFunc) \<Rightarrow> Path \<Rightarrow> ('s, 'e) ValidatorFunc option"
  indexPathForSlice :: "string \<Rightarrow> nat \<Rightarrow> string"

text \<open>
  Modelled from the spec: \<open>util.NewErrs\<close> and \<open>util.AppendErrs\<close> are outside the given
  sources; errors are collected and returned together, none dropped.
\<close>

definition NewErrs :: "'a \<Rightarrow> 'a list" where
  "NewErrs e = [e]"

definition AppendErrs :: "'a list \<Rightarrow> 'a list \<Rightarrow> 'a list" where
  "AppendErrs errs newErrs = errs @ newErrs"

text \<open>Indexing a \<open>map[string]bool\<close>: a missing key gives \<open>false\<close>.\<close>

definition mapAt :: "(string \<rightharpoonup> bool) \<Rightarrow> string \<Rightarrow> bool" where
  "mapAt m k = (case m k of None \<Rightarrow> False | Some b \<Rightarrow> b)"

subsection \<open>Leaf validation\<close>

text \<open>
  The package-level table \<open>requiredValues\<close> is read by \<open>validateLeaf\<close>; the model
  passes the table explicitly (\<open>req\<close>), and the entry point passes the table as the
  source declares it. Logging and the failure metric are left out.
\<close>

definition validateLeaf :: "('s, 'e) util \<Rightarrow> (string \<rightharpoonup> bool) \<Rightarrow> (string \<rightharpoonup> ('s, 'e) ValidatorFunc)
    \<Rightarrow> Path \<Rightarrow> 's dyn \<Rightarrow> bool \<Rightarrow> ('s, 'e) verr list" where
  "validateLeaf U req validations path val checkRequired =
     (let pstr = PathString U path
      in if IsValueNil U val \<or> IsEmptyString U val then
           (if checkRequired \<and> mapAt req pstr
            then NewErrs (RequiredNotSet (ToYAMLPathString U pstr))
            else [])
         else (case getValidationFuncForPath U validations path of
                 None \<Rightarrow> []
               | Some vf \<Rightarrow> map RuleError (vf path val)))"

subsection \<open>The walk\<close>

text \<open>
  \<open>Interface\<close> is \<open>reflect.Value.Interface\<close>: the value held, which for an
  interface-typed slot is the value inside it. \<open>entries\<close> reads a map or slice that
  may be nil.
\<close>

definition Interface :: "'s gval \<Rightarrow> 's dyn" where
  "Interface v = (case v of GIface None \<Rightarrow> NilIface | GIface (Some x) \<Rightarrow> Dyn x | _ \<Rightarrow> Dyn v)"

definition entries :: "'a list option \<Rightarrow> 'a list" where
  "entries m = (case m of None \<Rightarrow> [] | Some xs \<Rightarrow> xs)"

text \<open>The loop over the keys of a map field; each element goes to the leaf check as a \<open>reflect.Value\<close>.\<close>

fun validateMapKeys :: "('s, 'e) util \<Rightarrow> (string \<rightharpoonup> bool) \<Rightarrow> (string \<rightharpoonup> ('s, 'e) ValidatorFunc)
    \<Rightarrow> (string \<times> 's gval) list \<Rightarrow> Path \<Rightarrow> bool \<Rightarrow> ('s, 'e) verr list \<Rightarrow> ('s, 'e) verr list" where
  "validateMapKeys U req validations [] newPath checkRequired errs = errs"
| "validateMapKeys U req validations ((key, elem) # rest) newPath checkRequired errs =
     (let nnp = newPath @ [key]
      in validateMapKeys U req validations rest newPath checkRequired
           (AppendErrs errs (validateLeaf U req validations nnp (Reflected (Some elem)) checkRequired)))"

text \<open>
  \<open>Validate\<close> with its loop over the fields of the struct (\<open>validateFields\<close>) and its
  loop over the elements of a slice field (\<open>validateSlice\<close>), each with the errors
  gathered so far. Paths are immutable lists, so \<open>append\<close> is \<open>@\<close>. The reflection
  calls panic as the library does: \<open>Elem\<close> on a value that is not a pointer,
  \<open>NumField\<close> on a value that is not a struct, \<open>Interface\<close> on a field that is not
  exported.
\<close>

function Validate :: "('s, 'e) util \<Rightarrow> (string \<rightharpoonup> bool) \<Rightarrow> (string \<rightharpoonup> ('s, 'e) ValidatorFunc)
      \<Rightarrow> 's dyn \<Rightarrow> Path \<Rightarrow> bool \<Rightarrow> ('s, 'e) verr list outcome"
  and validateFields :: "('s, 'e) util \<Rightarrow> (string \<rightharpoonup> bool) \<Rightarrow> (string \<rightharpoonup> ('s, 'e) ValidatorFunc)
      \<Rightarrow> (string \<times> string option \<times> bool \<times> 's gval) list \<Rightarrow> Path \<Rightarrow> bool
      \<Rightarrow> ('s, 'e) verr list \<Rightarrow> ('s, 'e) verr list outcome"
  and validateSlice :: "('s, 'e) util \<Rightarrow> (string \<rightharpoonup> bool) \<Rightarrow> (string \<rightharpoonup> ('s, 'e) ValidatorFunc)
      \<Rightarrow> string \<Rightarrow> bool \<Rightarrow> nat \<Rightarrow> 's gval list \<Rightarrow> Path \<Rightarrow> bool
      \<Rightarrow> ('s, 'e) verr list \<Rightarrow> ('s, 'e) verr list outcome"
where
  "Validate U req validations structPtr path checkRequired =
     (if structPtr = NilIface then Returns []
      else if IsStruct U structPtr then Returns []
      else if \<not> IsPtr U structPtr
        then Returns (NewErrs (ExpectedPtr (PathString U path) structPtr))
      else (case structPtr of
              Dyn (GPtr structElems) \<Rightarrow>
                (if \<not> IsStruct U (Reflected structElems)
                   then Returns (NewErrs (ExpectedStruct (PathString U path) structElems))
                 else if IsNilOrInvalidValue U structElems then Returns []
                 else (case structElems of
                         Some (GStruct flds) \<Rightarrow>
                           validateFields U req validations flds path checkRequired []
                       | _ \<Rightarrow> Panics))
            | _ \<Rightarrow> Panics))"
| "validateFields U req validations [] path checkRequired errs = Returns errs"
| "validateFields U req validations ((fieldName, tag, exported, fieldValue) # rest) path checkRequired errs =
     (if tag = Some ''-'' then validateFields U req validations rest path checkRequired errs
      else (case fieldValue of
          GStruct fs \<Rightarrow>
            (if \<not> exported then Panics
             else (case Validate U req validations (Dyn (GPtr (Some fieldValue))) (path @ [fieldName]) checkRequired of
                     Panics \<Rightarrow> Panics
                   | Returns es \<Rightarrow>
                       validateFields U req validations rest path checkRequired (AppendErrs errs es)))
        | GMap m \<Rightarrow>
            (if \<not> exported then Panics
             else (let newPath = path @ [fieldName];
                       errs1 = AppendErrs errs
                                 (validateLeaf U req validations newPath (Dyn fieldValue) checkRequired);
                       errs2 = validateMapKeys U req validations (entries m) newPath checkRequired errs1
                   in validateFields U req validations rest path checkRequired errs2))
        | GSlice xs \<Rightarrow>
            (case validateSlice U req validations fieldName exported 0 (entries xs) path checkRequired errs of
               Panics \<Rightarrow> Panics
             | Returns errs1 \<Rightarrow> validateFields U req validations rest path checkRequired errs1)
        | GPtr pointee \<Rightarrow>
            (if IsNilOrInvalidValue U pointee
               then validateFields U req validations rest path checkRequired errs
             else (let newPath = path @ [fieldName]
                   in (case pointee of
                         Some (GStruct fs) \<Rightarrow>
                           (if \<not> exported then Panics
                            else (case Validate U req validations (Dyn fieldValue) newPath checkRequired of
                                    Panics \<Rightarrow> Panics
                                  | Returns es \<Rightarrow>
                                      validateFields U req validations rest path checkRequired
                                        (AppendErrs errs es)))
                       | _ \<Rightarrow>
                           validateFields U req validations rest path checkRequired
                             (AppendErrs errs
                                (validateLeaf U req validations newPath (Reflected (Some fieldValue))
                                   checkRequired)))))
        | _ \<Rightarrow>
            (if exported
               then validateFields U req validations rest path checkRequired
                      (AppendErrs errs
                         (validateLeaf U req validations (path @ [fieldName]) (Interface fieldValue)
                            checkRequired))
             else validateFields U req validations rest path checkRequired errs)))"
| "validateSlice U req validations fieldName exported i [] path checkRequired errs = Returns errs"
| "validateSlice U req validations fieldName exported i (elem # rest) path checkRequired errs =
     (if \<not> exported then Panics
      else (let newValue = Interface elem;
                newPath = path @ [indexPathForSlice U fieldName i]
            in if IsStruct U newValue \<or> IsPtr U newValue then
                 (case Validate U req validations newValue newPath checkRequired of
                    Panics \<Rightarrow> Panics
                  | Returns es \<Rightarrow>
                      validateSlice U req validations fieldName exported (Suc i) rest path checkRequired
                        (AppendErrs errs es))
               else validateSlice U req validations fieldName exported (Suc i) rest path checkRequired
                      (AppendErrs errs (validateLeaf U req validations newPath newValue checkRequired))))"
  by pat_completeness auto
termination
  apply (relation "measure (\<lambda>x. case x of
        Inl (U, req, V, d, p, c) \<Rightarrow> (case d of Dyn v \<Rightarrow> size v | _ \<Rightarrow> 0)
      | Inr (Inl (U, req, V, fs, p, c, errs)) \<Rightarrow>
          size_list (size_prod (\<lambda>_. 0) (size_prod (\<lambda>_. 0) (size_prod (\<lambda>_. 0) size))) fs
      | Inr (Inr (U, req, V, fname, ex, i, xs, p, c, errs)) \<Rightarrow> size_list size xs)")
  apply (auto simp: Interface_def entries_def split: gval.splits option.splits)
  done

declare Validate.simps [simp del]

subsection \<open>The entry point\<close>

text \<open>The table of required values, as the source declares it: empty.\<close>

definition requiredValues :: "string \<rightharpoonup> bool" where
  "requiredValues = Map.empty"

text \<open>
  \<open>CheckIstioOperatorSpec\<close> takes a pointer to the spec (\<open>None\<close> is the nil pointer,
  otherwise the struct pointed to). The rule functions of the table
  \<open>DefaultValidations\<close> rest on code outside the given sources (regular expressions,
  mesh configuration, values validation), so the table is a parameter.
\<close>

definition CheckIstioOperatorSpec :: "('s, 'e) util \<Rightarrow> (string \<rightharpoonup> ('s, 'e) ValidatorFunc)
    \<Rightarrow> 's gval option \<Rightarrow> bool \<Rightarrow> ('s, 'e) verr list outcome" where
  "CheckIstioOperatorSpec U DefaultValidations is checkRequiredFields =
     (case is of
        None \<Rightarrow> Returns []
      | Some spec \<Rightarrow>
          (case Validate U requiredValues DefaultValidations (Dyn (GPtr (Some spec))) [] checkRequiredFields of
             Panics \<Rightarrow> Panics
           | Returns es \<Rightarrow> Returns (AppendErrs [] es)))"

fun isRequiredNotSet :: "('s, 'e) verr \<Rightarrow> bool" where
  "isRequiredNotSet (RequiredNotSet p) = True"
| "isRequiredNotSet _ = False"

subsection \<open>An instance of the helpers\<close>

text \<open>
  Modelled from the spec: the helpers of package \<open>util\<close> and the rule lookup, which
  are outside the given sources. A struct is a value of struct kind, also behind a
  \<open>reflect.Value\<close>; a reference is a value of pointer kind; absent values are \<open>nil\<close>
  and the nil pointer, map, slice and interface; the empty string is empty; a path is
  rendered with dots between its segments and displayed as rendered; a rule is looked
  up at the rendered path; the segment of a slice element is \<open>field[index]\<close>.
  Concrete walks are evaluated with this instance, with natural numbers as scalars
  and strings as rule errors.
\<close>

fun structKind :: "'s dyn \<Rightarrow> bool" where
  "structKind (Dyn (GStruct flds)) = True"
| "structKind (Reflected (Some (GStruct flds))) = True"
| "structKind _ = False"

fun ptrKind :: "'s dyn \<Rightarrow> bool" where
  "ptrKind (Dyn (GPtr x)) = True"
| "ptrKind _ = False"

fun nilOrInvalid :: "'s gval option \<Rightarrow> bool" where
  "nilOrInvalid None = True"
| "nilOrInvalid (Some (GPtr None)) = True"
| "nilOrInvalid (Some (GMap None)) = True"
| "nilOrInvalid (Some (GSlice None)) = True"
| "nilOrInvalid (Some (GIface None)) = True"
| "nilOrInvalid _ = False"

fun valueNil :: "'s dyn \<Rightarrow> bool" where
  "valueNil NilIface = True"
| "valueNil (Dyn (GPtr None)) = True"
| "valueNil (Dyn (GMap None)) = True"
| "valueNil (Dyn (GSlice None)) = True"
| "valueNil _ = False"

fun emptyString :: "'s dyn \<Rightarrow> bool" where
  "emptyString NilIface = True"
| "emptyString (Dyn (GString s)) = (s = [])"
| "emptyString _ = False"

definition dotted :: "Path \<Rightarrow> string" where
  "dotted path = Join path ''.''"

definition displayPath :: "string \<Rightarrow> string" where
  "displayPath pstr = pstr"

definition exactRule :: "(string \<rightharpoonup> ('s, 'e) ValidatorFunc) \<Rightarrow> Path \<Rightarrow> ('s, 'e) ValidatorFunc option" where
  "exactRule validations path = validations (dotted path)"

definition indexed :: "string \<Rightarrow> nat \<Rightarrow> string" where
  "indexed fieldName i = fieldName @ ''['' @ itoa i @ '']''"

definition specUtil :: "(nat, string) util" where
  "specUtil = \<lparr>IsStruct = structKind, IsPtr = ptrKind, IsNilOrInvalidValue = nilOrInvalid,
      IsValueNil = valueNil, IsEmptyString = emptyString, PathString = dotted,
      ToYAMLPathString = displayPath, getValidationFuncForPath = exactRule,
      indexPathForSlice = indexed\<rparr>"

text \<open>
  A rule that rejects every value, a rule table with that rule at \<open>Tag\<close>, a table of
  required paths that marks \<open>Hub\<close>, and a spec with an empty hub, a tag, a gateway
  with an empty name and a field tagged to be skipped.
\<close>

definition rejectValue :: "(nat, string) ValidatorFunc" where
  "rejectValue path val = [''invalid value at '' @ dotted path]"

definition exampleRules :: "string \<rightharpoonup> (nat, string) ValidatorFunc" where
  "exampleRules = [''Tag'' \<mapsto> rejectValue]"

definition exampleRequired :: "string \<rightharpoonup> bool" where
  "exampleRequired = [''Hub'' \<mapsto> True]"

definition exampleSpec :: "nat gval" where
  "exampleSpec = GStruct
     [(''Hub'', None, True, GString []),
      (''Tag'', None, True, GIface (Some (GString ''1.9''))),
      (''Components'', None, True,
         GPtr (Some (GStruct
           [(''IngressGateways'', None, True,
               GSlice (Some [GPtr (Some (GStruct [(''Name'', None, True, GString [])]))]))]))),
      (''XXX_unrecognized'', Some ''-'', True, GSlice None)]"

section \<open>Theorems: sync status printer\<close>

lemma statusLoop_map:
  "statusLoop gst sw tys acc = acc @ map (statusColumn gst sw) tys"
  by (induction tys arbitrary: acc) simp_all

text \<open>
  C5. The label is a function of the sent and acked nonces alone: an empty sent nonce
  gives NOT SENT; equal non-empty nonces give SYNCED; a non-empty sent nonce with an
  empty acked nonce gives STALE (Never Acknowledged); two different non-empty nonces
  give STALE.
\<close>

theorem xdsStatus_table:
  "(sent = [] \<longrightarrow> xdsStatus sent acked = ''NOT SENT'') \<and>
   (sent \<noteq> [] \<and> sent = acked \<longrightarrow> xdsStatus sent acked = ''SYNCED'') \<and>
   (sent \<noteq> [] \<and> acked = [] \<longrightarrow> xdsStatus sent acked = ''STALE (Never Acknowledged)'') \<and>
   (sent \<noteq> [] \<and> acked \<noteq> [] \<and> sent \<noteq> acked \<longrightarrow> xdsStatus sent acked = ''STALE'')"
  by (simp add: xdsStatus_def)

theorem xdsStatus_table_witness:
  "xdsStatus '''' '''' = ''NOT SENT'' \<and>
   xdsStatus ''n1'' ''n1'' = ''SYNCED'' \<and>
   xdsStatus ''n1'' '''' = ''STALE (Never Acknowledged)'' \<and>
   xdsStatus ''n1'' ''n2'' = ''STALE''"
  using xdsStatus_table [of "''''" "''''"] xdsStatus_table [of "''n1''" "''n1''"]
    xdsStatus_table [of "''n1''" "''''"] xdsStatus_table [of "''n1''" "''n2''"]
  by simp

text \<open>
  C1, as stated, fails: on \<open>genericOnlyRow\<close> the generic entry for CDS is present and
  non-empty and derives SYNCED, yet the CDS column printed is NOT SENT, the label of
  the empty legacy cluster fields.
\<close>

theorem statusPrintln_generic_not_preferred:
  "Statuses genericOnlyRow ''CDS'' = Some \<lparr>NonceSent = ''n1'', NonceAcked = ''n1''\<rparr> \<and>
   xdsStatus ''n1'' ''n1'' = ''SYNCED'' \<and>
   statusLoop shortName genericOnlyRow [''CDS''] [] = [''NOT SENT''] \<and>
   statusPrintln shortName [''CDS''] genericOnlyRow
     = ''sidecar.default'' @ TAB @ ''NOT SENT'' @ TAB @ ''istiod-1'' @ TAB @ ''1.9.0'' @ NL"
  by (simp add: genericOnlyRow_def xdsStatus_def statusColumn_def statusPrintln_def shortName_def)

text \<open>
  C1, amended. The labels of a row are, column by column: for the columns named CDS,
  LDS, RDS and EDS the label of the legacy cluster, listener, route and endpoint
  sent/acked fields, whatever \<open>Statuses\<close> holds; for every other column the label of
  the generic entry of \<open>Statuses\<close> at the column's short type (empty nonces when the
  entry is absent).
\<close>

theorem statusPrintln_columns:
  "statusPrintln gst XDSCols sw =
     ProxyID sw @ TAB @
     Join (map (\<lambda>ty. if ty = ''CDS'' then xdsStatus (ClusterSent sw) (ClusterAcked sw)
                    else if ty = ''LDS'' then xdsStatus (ListenerSent sw) (ListenerAcked sw)
                    else if ty = ''RDS'' then xdsStatus (RouteSent sw) (RouteAcked sw)
                    else if ty = ''EDS'' then xdsStatus (EndpointSent sw) (EndpointAcked sw)
                    else (case Statuses sw (gst ty) of
                            None \<Rightarrow> xdsStatus [] []
                          | Some e \<Rightarrow> xdsStatus (NonceSent e) (NonceAcked e))) XDSCols) TAB
     @ TAB @ pilot sw @ TAB
     @ (if IstioVersion sw = [] then ProxyVersion sw @ ''*'' else IstioVersion sw) @ NL
   \<and> statusPrintln gst (filter (\<lambda>ty. ty \<in> {''CDS'', ''LDS'', ''RDS'', ''EDS''}) XDSCols) (sw\<lparr>Statuses := m\<rparr>)
     = statusPrintln gst (filter (\<lambda>ty. ty \<in> {''CDS'', ''LDS'', ''RDS'', ''EDS''}) XDSCols) sw"
proof
  have col: "statusColumn gst sw ty =
      (if ty = ''CDS'' then xdsStatus (ClusterSent sw) (ClusterAcked sw)
       else if ty = ''LDS'' then xdsStatus (ListenerSent sw) (ListenerAcked sw)
       else if ty = ''RDS'' then xdsStatus (RouteSent sw) (RouteAcked sw)
       else if ty = ''EDS'' then xdsStatus (EndpointSent sw) (EndpointAcked sw)
       else (case Statuses sw (gst ty) of
               None \<Rightarrow> xdsStatus [] []
             | Some e \<Rightarrow> xdsStatus (NonceSent e) (NonceAcked e)))" for ty
    by (simp add: statusColumn_def StatusesAt_def zeroNonces_def split: option.split)
  have "statusLoop gst sw XDSCols [] =
     map (\<lambda>ty. if ty = ''CDS'' then xdsStatus (ClusterSent sw) (ClusterAcked sw)
               else if ty = ''LDS'' then xdsStatus (ListenerSent sw) (ListenerAcked sw)
               else if ty = ''RDS'' then xdsStatus (RouteSent sw) (RouteAcked sw)
               else if ty = ''EDS'' then xdsStatus (EndpointSent sw) (EndpointAcked sw)
               else (case Statuses sw (gst ty) of
                       None \<Rightarrow> xdsStatus [] []
                     | Some e \<Rightarrow> xdsStatus (NonceSent e) (NonceAcked e))) XDSCols"
    unfolding statusLoop_map using col by simp
  then show "statusPrintln gst XDSCols sw =
     ProxyID sw @ TAB @
     Join (map (\<lambda>ty. if ty = ''CDS'' then xdsStatus (ClusterSent sw) (ClusterAcked sw)
                    else if ty = ''LDS'' then xdsStatus (ListenerSent sw) (ListenerAcked sw)
                    else if ty = ''RDS'' then xdsStatus (RouteSent sw) (RouteAcked sw)
                    else if ty = ''EDS'' then xdsStatus (EndpointSent sw) (EndpointAcked sw)
                    else (case Statuses sw (gst ty) of
                            None \<Rightarrow> xdsStatus [] []
                          | Some e \<Rightarrow> xdsStatus (NonceSent e) (NonceAcked e))) XDSCols) TAB
     @ TAB @ pilot sw @ TAB
     @ (if IstioVersion sw = [] then ProxyVersion sw @ ''*'' else IstioVersion sw) @ NL"
    by (simp only: statusPrintln_def Let_def)
next
  have "statusColumn gst (sw\<lparr>Statuses := m\<rparr>) ty = statusColumn gst sw ty"
    if "ty \<in> {''CDS'', ''LDS'', ''RDS'', ''EDS''}" for ty
    using that by (auto simp: statusColumn_def)
  then have "statusLoop gst (sw\<lparr>Statuses := m\<rparr>) (filter (\<lambda>ty. ty \<in> {''CDS'', ''LDS'', ''RDS'', ''EDS''}) XDSCols) []
     = statusLoop gst sw (filter (\<lambda>ty. ty \<in> {''CDS'', ''LDS'', ''RDS'', ''EDS''}) XDSCols) []"
    unfolding statusLoop_map by (simp cong: map_cong)
  then show "statusPrintln gst (filter (\<lambda>ty. ty \<in> {''CDS'', ''LDS'', ''RDS'', ''EDS''}) XDSCols) (sw\<lparr>Statuses := m\<rparr>)
     = statusPrintln gst (filter (\<lambda>ty. ty \<in> {''CDS'', ''LDS'', ''RDS'', ''EDS''}) XDSCols) sw"
    by (simp add: statusPrintln_def Let_def)
qed

subsection \<open>Passthrough of unknown payloads\<close>

lemma writeResources_concat:
  "writeResources rs snk = snk @ concat (map Any.Value rs)"
  by (induction rs arbitrary: snk) simp_all

lemma resourcesLoop_passthrough:
  assumes "\<forall>r \<in> set rs. TypeUrl r \<noteq> ClientConfigTypeUrl"
  shows "resourcesLoop um cp n dr rs st =
     Inr (st\<lparr>sink := sink st @ concat (replicate (length rs) (concat (map Any.Value (Resources dr)))),
            fullStatus := (if rs = [] then fullStatus st else [])\<rparr>)"
  using assms
proof (induction rs arbitrary: st)
  case Nil
  show ?case by simp
next
  case (Cons r rs)
  then show ?case by (simp add: writeResources_concat)
qed

lemma printRows_Nil: "printRows [] tw = Returns tw"
  by simp

text \<open>
  When no resource of any response is a \<open>ClientConfig\<close>, \<open>PrintAll\<close> returns no error,
  and what reaches the sink is, for every response, the payloads of all its resources,
  once per resource of that response.
\<close>

lemma responsesLoop_passthrough:
  assumes "\<forall>(k, dr) \<in> set drs. \<forall>r \<in> set (Resources dr). TypeUrl r \<noteq> ClientConfigTypeUrl"
    and "w st = None" and "fullStatus st = []"
  shows "\<exists>st'. responsesLoop um cp n drs st = Inr st' \<and> w st' = None \<and> fullStatus st' = [] \<and>
     sink st' = sink st @ concat (map (\<lambda>(k, dr).
        concat (replicate (length (Resources dr)) (concat (map Any.Value (Resources dr))))) drs)"
  using assms
proof (induction drs arbitrary: st)
  case Nil
  then show ?case by simp
next
  case (Cons p drs)
  obtain k dr where p: "p = (k, dr)" by (cases p)
  let ?st1 = "st\<lparr>sink := sink st @ concat (replicate (length (Resources dr)) (concat (map Any.Value (Resources dr)))),
            fullStatus := (if Resources dr = [] then fullStatus st else [])\<rparr>"
  have one: "resourcesLoop um cp n dr (Resources dr) st = Inr ?st1"
    using Cons.prems(1) p by (intro resourcesLoop_passthrough) auto
  have "\<exists>st'. responsesLoop um cp n drs ?st1 = Inr st' \<and> w st' = None \<and> fullStatus st' = [] \<and>
     sink st' = sink ?st1 @ concat (map (\<lambda>(k, dr).
        concat (replicate (length (Resources dr)) (concat (map Any.Value (Resources dr))))) drs)"
    using Cons.prems by (intro Cons.IH) auto
  then show ?case using one p by auto
qed

lemma PrintAll_passthrough:
  assumes "\<forall>(k, dr) \<in> set drs. \<forall>r \<in> set (Resources dr). TypeUrl r \<noteq> ClientConfigTypeUrl"
  shows "XdsStatusWriter_PrintAll um cp layout writer drs =
     Returns (None, writer @ concat (map (\<lambda>(k, dr).
        concat (replicate (length (Resources dr)) (concat (map Any.Value (Resources dr))))) drs))"
proof -
  obtain st' where "responsesLoop um cp (length drs) drs \<lparr>sink = writer, w = None, fullStatus = []\<rparr> = Inr st'"
    "w st' = None" "fullStatus st' = []"
    "sink st' = writer @ concat (map (\<lambda>(k, dr).
        concat (replicate (length (Resources dr)) (concat (map Any.Value (Resources dr))))) drs)"
    using responsesLoop_passthrough [OF assms, of "\<lparr>sink = writer, w = None, fullStatus = []\<rparr>" um cp "length drs"]
    by auto
  then show ?thesis
    by (simp add: XdsStatusWriter_PrintAll_def XdsStatusWriter_setupStatusPrint_def)
qed

text \<open>
  C4. A response with two resources of an unknown payload type, with payloads \<open>a\<close> and
  \<open>b\<close>: \<open>PrintAll\<close> returns no error, and the sink receives \<open>abab\<close>, each payload
  twice, where the specification has each payload exactly once (\<open>ab\<close>).
\<close>

theorem XdsStatusWriter_PrintAll_writes_twice:
  "XdsStatusWriter_PrintAll um cp layout []
     [(''istiod-1'', \<lparr>Resources = [\<lparr>TypeUrl = ''type.googleapis.com/unknown'', Value = ''a''\<rparr>,
                                   \<lparr>TypeUrl = ''type.googleapis.com/unknown'', Value = ''b''\<rparr>],
                      ControlPlane = ''istiod-1''\<rparr>)]
   = Returns (None, ''abab'')"
  by (simp add: XdsStatusWriter_PrintAll_def XdsStatusWriter_setupStatusPrint_def
      ClientConfigTypeUrl_def)

section \<open>Theorems: diff walker\<close>

lemma mapIndex_member:
  "distinct (map fst m) \<Longrightarrow> (k, v) \<in> set m \<Longrightarrow> mapIndex m k = v"
  by (simp add: mapIndex_def)

lemma diffWalkMap_same:
  assumes "\<And>k v p s. (k, v) \<in> set rest \<Longrightarrow> diffWalk E p s v (mapIndex m k) = Returns ([], None)"
  shows "diffWalkMap E path separator rest m accum = Returns (accum, None)"
  using assms
proof (induction rest arbitrary: accum)
  case Nil
  show ?case by simp
next
  case (Cons kv rest)
  obtain k v where kv: "kv = (k, v)" by (cases kv)
  have "diffWalk E (path @ separator @ pathComponent E k) ''.'' v (mapIndex m k) = Returns ([], None)"
    using Cons.prems kv by simp
  moreover have "diffWalkMap E path separator rest m accum = Returns (accum, None)"
    using Cons.prems by (intro Cons.IH) simp
  ultimately show ?case using kv by simp
qed

lemma diffWalkSeq_same:
  assumes "\<And>i p s. i < length rest \<Longrightarrow> diffWalk E p s (rest ! i) (orig ! (idx + i)) = Returns ([], None)"
    and "idx + length rest \<le> length orig"
  shows "diffWalkSeq E path idx rest orig accum = Returns (accum, None)"
  using assms
proof (induction rest arbitrary: idx accum)
  case Nil
  show ?case by simp
next
  case (Cons v rest)
  have "diffWalk E (path @ ''['' @ itoa idx @ '']'') ''.'' v (orig ! idx) = Returns ([], None)"
    using Cons.prems(1) [of 0] by simp
  moreover have "diffWalkSeq E path (Suc idx) rest orig accum = Returns (accum, None)"
  proof (rule Cons.IH)
    show "diffWalk E p s (rest ! i) (orig ! (Suc idx + i)) = Returns ([], None)"
      if "i < length rest" for i p s
      using Cons.prems(1) [of "Suc i" p s] that by simp
    show "Suc idx + length rest \<le> length orig"
      using Cons.prems(2) by simp
  qed
  ultimately show ?case using Cons.prems(2) by simp
qed

text \<open>
  The walk never returns an error, and a current sequence longer than the baseline
  sequence always panics.
\<close>

lemma diffWalk_no_error:
  "diffWalk E path separator obj orig \<noteq> Returns (r, Some err)"
  "diffWalkMap E path separator m typedOrig accum \<noteq> Returns (r, Some err)"
  "diffWalkSeq E path idx xs typedOrig' accum \<noteq> Returns (r, Some err)"
proof (induction E path separator obj orig and E path separator m typedOrig accum
    and E path idx xs typedOrig' accum arbitrary: r and r and r
    rule: diffWalk_diffWalkMap_diffWalkSeq.induct)
  case (1 E path separator v orig)
  then show ?case by (cases orig) auto
next
  case (2 E path separator v orig)
  then show ?case by (cases orig) auto
next
  case (7 E path separator key vv rest typedOrig accum)
  then show ?case by (auto split: outcome.splits option.splits)
next
  case (9 E path idx vv rest typedOrig accum)
  then show ?case by (auto split: outcome.splits option.splits)
qed auto

lemma diffWalkSeq_short_baseline:
  "idx \<le> length typedOrig \<Longrightarrow> length typedOrig < idx + length xs \<Longrightarrow>
   diffWalkSeq E path idx xs typedOrig accum = Panics"
proof (induction xs arbitrary: idx accum)
  case Nil
  then show ?case by simp
next
  case (Cons v xs)
  show ?case
  proof (cases "idx < length typedOrig")
    case False
    then show ?thesis by simp
  next
    case True
    show ?thesis
    proof (cases "diffWalk E (path @ ''['' @ itoa idx @ '']'') ''.'' v (typedOrig ! idx)")
      case Panics
      then show ?thesis using True by simp
    next
      case (Returns res)
      obtain indexwalk err where res: "res = (indexwalk, err)" by (cases res)
      have "err = None"
        using Returns res diffWalk_no_error(1) [of E _ _ v "typedOrig ! idx" indexwalk] by (cases err) auto
      moreover have "diffWalkSeq E path (Suc idx) xs typedOrig (accum @ indexwalk) = Panics"
        using Cons.prems True by (intro Cons.IH) auto
      ultimately show ?thesis using True Returns res by simp
    qed
  qed
qed

lemma diffWalk_longer_sequence:
  "length typedOrig < length v \<Longrightarrow> diffWalk E path separator (JSeq v) (JSeq typedOrig) = Panics"
  by (simp add: diffWalkSeq_short_baseline)

text \<open>
  C3. The current value is a sequence of one string and the baseline an empty
  sequence: index 0 has no baseline element, and the walk panics at \<open>typedOrig[idx]\<close>
  where the specification has it return normally with no record for that index.
\<close>

theorem diffWalk_longer_sequence_panics:
  "diffWalk E [] [] (JSeq [JString ''a'']) (JSeq []) = Panics"
  by simp

text \<open>
  C6. Against a \<open>nil\<close> baseline no current tree yields a record; a map whose baseline
  is not a map and a sequence whose baseline is not a sequence yield no record, and so
  none for any descendant, whatever they hold.
\<close>

theorem diffWalk_asymmetry:
  "diffWalk E path separator obj JNil = Returns ([], None) \<and>
   (\<not> is_JMap orig \<longrightarrow> diffWalk E path separator (JMap m) orig = Returns ([], None)) \<and>
   (\<not> is_JSeq orig \<longrightarrow> diffWalk E path separator (JSeq xs) orig = Returns ([], None))"
  by (cases obj; cases orig) simp_all

theorem diffWalk_asymmetry_witness:
  "diffWalk plainEnv [] [] installedTree JNil = Returns ([], None) \<and>
   \<not> is_JMap (JString ''x'' :: nat jval) \<and>
   diffWalk plainEnv [] [] (JMap [(''a'', JMap [(''b'', JString ''deep'')])]) (JString ''x'')
     = Returns ([], None) \<and>
   \<not> is_JSeq (JMap [] :: nat jval) \<and>
   diffWalk plainEnv [] [] (JSeq [JSeq [JScalar 7, JString ''deep'']]) (JMap [])
     = Returns ([], None)"
  using diffWalk_asymmetry [of plainEnv "[]" "[]" installedTree "JString ''x''"
      "[(''a'', JMap [(''b'', JString ''deep'')])]" "[JSeq [JScalar 7, JString ''deep'']]"]
    diffWalk_asymmetry [of plainEnv "[]" "[]" installedTree "JMap []"
      "[(''a'', JMap [(''b'', JString ''deep'')])]" "[JSeq [JScalar 7, JString ''deep'']]"]
  by simp

text \<open>
  C8. Diff idempotence: a tree of nested maps, sequences and scalars (each map holding
  each key once, as a map does) walked against itself yields the empty record list.
\<close>

theorem diffWalk_idempotence:
  "uniqueKeys X \<Longrightarrow> diffWalk E path separator X X = Returns ([], None)"
proof (induction X arbitrary: path separator)
  case JNil
  show ?case by simp
next
  case (JMap m)
  have "diffWalkMap E path separator m m [] = Returns ([], None)"
  proof (rule diffWalkMap_same)
    fix k v p s
    assume kv: "(k, v) \<in> set m"
    have d: "distinct (map fst m)"
      using JMap.prems by simp
    have u: "uniqueKeys v"
      using JMap.prems kv by (auto simp: list_all_iff)
    have "diffWalk E p s v v = Returns ([], None)"
      using JMap.IH [of "(k, v)" v] kv u by simp
    then show "diffWalk E p s v (mapIndex m k) = Returns ([], None)"
      using mapIndex_member [OF d kv] by simp
  qed
  then show ?case by simp
next
  case (JSeq xs)
  have "diffWalkSeq E path 0 xs xs [] = Returns ([], None)"
  proof (rule diffWalkSeq_same)
    fix i p s
    assume i: "i < length xs"
    then have "uniqueKeys (xs ! i)"
      using JSeq.prems by (simp add: list_all_length)
    then show "diffWalk E p s (xs ! i) (xs ! (0 + i)) = Returns ([], None)"
      using JSeq.IH [of "xs ! i"] i by simp
  qed simp
  then show ?case by simp
next
  case (JString x)
  show ?case by simp
next
  case (JScalar x)
  show ?case by simp
qed

theorem diffWalk_idempotence_witness:
  "uniqueKeys installedTree \<and>
   diffWalk plainEnv [] [] installedTree installedTree = Returns ([], None)"
proof -
  have u: "uniqueKeys installedTree"
    by (simp add: installedTree_def)
  show ?thesis
    using u diffWalk_idempotence [OF u, of plainEnv "[]" "[]"] by simp
qed

text \<open>
  The walk does report a changed leaf: the string \<open>hub\<close> differs from the baseline,
  the other leaves do not.
\<close>

lemma diffWalk_reports_override:
  "diffWalk plainEnv [] [] installedTree
     (JMap [(''hub'', JString ''docker.io/istio''),
            (''gateways'', JSeq [JString ''ingress'', JScalar 2, JNil, JNil])])
   = Returns ([\<lparr>Path = ''hub'', Value = quotePlain ''gcr.io/istio-testing''\<rparr>], None)"
  by (simp add: installedTree_def plainEnv_def pathComponent_def mapIndex_def HasPrefix_def)

section \<open>Theorems: bootstrap bundle composer\<close>

lemma addHosts_concat:
  "addHosts hosts gw c = c @ concat (map (\<lambda>host. [''--add-host'', host @ '':'' @ gw]) hosts)"
  by (induction hosts arbitrary: c) simp_all

text \<open>Joining a non-empty list: the first element, then every further element after the separator.\<close>

lemma Join_Cons:
  "Join (x # xs) sep = x @ concat (map (\<lambda>y. sep @ y) xs)"
  by (induction xs arbitrary: x) simp_all

lemma Join_append:
  "xs \<noteq> [] \<Longrightarrow> Join (xs @ ys) sep = Join xs sep @ concat (map (\<lambda>y. sep @ y) ys)"
  by (cases xs) (simp_all add: Join_Cons)

lemma concat_add_host:
  "concat (map (\<lambda>y. '' '' @ y) (concat (map (\<lambda>host. [''--add-host'', host @ '':'' @ gw]) hosts)))
   = concat (map (\<lambda>host. '' --add-host '' @ host @ '':'' @ gw) hosts)"
  by (induction hosts) simp_all

text \<open>
  C7, as stated, fails: for the bundle of the repository's own test the launch command
  has two volume mounts, for the CA certificate and for the token; the environment file
  is not mounted, it is passed by \<open>--env-file\<close> alone.
\<close>

theorem processBundle_two_volume_mounts:
  "launchWords testBundle ''/etc/istio-proxy'' =
     [''docker'', ''run'', ''-d'', ''--name'', ''istio-proxy'',
      ''--restart'', ''unless-stopped'', ''--network'', ''host'',
      ''-v'', ''/etc/istio-proxy/istio-ca.pem:/var/run/secrets/istio/root-cert.pem'',
      ''-v'', ''/etc/istio-proxy/istio-token:/var/run/secrets/tokens/istio-token'',
      ''--env-file'', ''/etc/istio-proxy/sidecar.env'',
      ''--add-host'', ''istiod.istio-system.svc:1.2.3.4'',
      ''--add-host'', ''zipkin.istio-monitoring.svc:1.2.3.4'',
      ''proxyv2:latest'', ''proxy'', ''sidecar''] \<and>
   count_list (launchWords testBundle ''/etc/istio-proxy'') ''-v'' = 2 \<and>
   cmd (cmdsToExec (processBundle testBundle ''/etc/istio-proxy'') ! 1) =
     ''docker run -d --name istio-proxy --restart unless-stopped --network host '' @
     ''-v /etc/istio-proxy/istio-ca.pem:/var/run/secrets/istio/root-cert.pem '' @
     ''-v /etc/istio-proxy/istio-token:/var/run/secrets/tokens/istio-token '' @
     ''--env-file /etc/istio-proxy/sidecar.env '' @
     ''--add-host istiod.istio-system.svc:1.2.3.4 '' @
     ''--add-host zipkin.istio-monitoring.svc:1.2.3.4 '' @
     ''proxyv2:latest '' @
     ''proxy sidecar''"
  by (simp add: processBundle_def launchWords_def testBundle_def)

text \<open>
  C7, amended. \<open>processBundle\<close> yields three files in the order \<open>sidecar.env\<close>,
  \<open>istio-ca.pem\<close>, \<open>istio-token\<close>, each in the remote directory, the token with mode
  0640 (no permission for others) and the other two with mode 0644 (readable by
  others); and two commands in order: the removal of the prior container, not
  required, and the required launch command. The launch command is, word by word with
  single spaces between: the fixed options with the container name and the host
  network, a volume mount for the CA certificate and one for the token (two mounts),
  the environment file passed by \<open>--env-file\<close>, one \<open>--add-host\<close> flag with
  \<open>host:gateway\<close> per host alias, the image, and the process arguments.
\<close>

theorem processBundle_items:
  "processBundle bundle remoteDir =
     \<lparr>filesToCopy =
        [\<lparr>name = ''sidecar.env'', dir = remoteDir, perm = 420, data = IstioProxyEnvironment bundle\<rparr>,
         \<lparr>name = ''istio-ca.pem'', dir = remoteDir, perm = 420, data = IstioCaCert bundle\<rparr>,
         \<lparr>name = ''istio-token'', dir = remoteDir, perm = 416, data = ServiceAccountToken bundle\<rparr>],
      cmdsToExec =
        [\<lparr>cmd = ''docker rm --force '' @ IstioProxyContainerName bundle, required = False\<rparr>,
         \<lparr>cmd = ''docker run -d --name '' @ IstioProxyContainerName bundle
              @ '' --restart unless-stopped --network host''
              @ '' -v '' @ remoteDir @ ''/istio-ca.pem:/var/run/secrets/istio/root-cert.pem''
              @ '' -v '' @ remoteDir @ ''/istio-token:/var/run/secrets/tokens/istio-token''
              @ '' --env-file '' @ remoteDir @ ''/sidecar.env''
              @ concat (map (\<lambda>host. '' --add-host '' @ host @ '':'' @ IstioIngressGatewayAddress bundle)
                          (IstioProxyHosts bundle))
              @ '' '' @ IstioProxyImage bundle
              @ concat (map (\<lambda>arg. '' '' @ arg) (IstioProxyArgs bundle)),
           required = True\<rparr>]\<rparr>
   \<and> launchWords bundle remoteDir =
       [''docker'', ''run'', ''-d'', ''--name'', IstioProxyContainerName bundle,
        ''--restart'', ''unless-stopped'', ''--network'', ''host'',
        ''-v'', remoteDir @ ''/istio-ca.pem:/var/run/secrets/istio/root-cert.pem'',
        ''-v'', remoteDir @ ''/istio-token:/var/run/secrets/tokens/istio-token'',
        ''--env-file'', remoteDir @ ''/sidecar.env'']
       @ concat (map (\<lambda>host. [''--add-host'', host @ '':'' @ IstioIngressGatewayAddress bundle])
                   (IstioProxyHosts bundle))
       @ [IstioProxyImage bundle] @ IstioProxyArgs bundle
   \<and> length (filesToCopy (processBundle bundle remoteDir)) = 3
   \<and> length (cmdsToExec (processBundle bundle remoteDir)) = 2
   \<and> perm (filesToCopy (processBundle bundle remoteDir) ! 0) AND 7 = 4
   \<and> perm (filesToCopy (processBundle bundle remoteDir) ! 1) AND 7 = 4
   \<and> perm (filesToCopy (processBundle bundle remoteDir) ! 2) AND 7 = 0"
proof -
  let ?fixed = "[''docker'', ''run'', ''-d'', ''--name'', IstioProxyContainerName bundle,
        ''--restart'', ''unless-stopped'', ''--network'', ''host'',
        ''-v'', remoteDir @ ''/istio-ca.pem:/var/run/secrets/istio/root-cert.pem'',
        ''-v'', remoteDir @ ''/istio-token:/var/run/secrets/tokens/istio-token'',
        ''--env-file'', remoteDir @ ''/sidecar.env'']"
  let ?hosts = "concat (map (\<lambda>host. [''--add-host'', host @ '':'' @ IstioIngressGatewayAddress bundle])
                   (IstioProxyHosts bundle))"
  have words: "launchWords bundle remoteDir = ?fixed @ ?hosts @ [IstioProxyImage bundle] @ IstioProxyArgs bundle"
    by (simp add: launchWords_def addHosts_concat)
  have "Join (launchWords bundle remoteDir) '' '' =
      Join ?fixed '' '' @ concat (map (\<lambda>y. '' '' @ y) (?hosts @ [IstioProxyImage bundle] @ IstioProxyArgs bundle))"
    unfolding words by (rule Join_append) simp
  also have "\<dots> = ''docker run -d --name '' @ IstioProxyContainerName bundle
              @ '' --restart unless-stopped --network host''
              @ '' -v '' @ remoteDir @ ''/istio-ca.pem:/var/run/secrets/istio/root-cert.pem''
              @ '' -v '' @ remoteDir @ ''/istio-token:/var/run/secrets/tokens/istio-token''
              @ '' --env-file '' @ remoteDir @ ''/sidecar.env''
              @ concat (map (\<lambda>host. '' --add-host '' @ host @ '':'' @ IstioIngressGatewayAddress bundle)
                          (IstioProxyHosts bundle))
              @ '' '' @ IstioProxyImage bundle
              @ concat (map (\<lambda>arg. '' '' @ arg) (IstioProxyArgs bundle))"
    by (simp add: concat_add_host [simplified])
  finally have joined: "Join (launchWords bundle remoteDir) '' '' =
      ''docker run -d --name '' @ IstioProxyContainerName bundle
              @ '' --restart unless-stopped --network host''
              @ '' -v '' @ remoteDir @ ''/istio-ca.pem:/var/run/secrets/istio/root-cert.pem''
              @ '' -v '' @ remoteDir @ ''/istio-token:/var/run/secrets/tokens/istio-token''
              @ '' --env-file '' @ remoteDir @ ''/sidecar.env''
              @ concat (map (\<lambda>host. '' --add-host '' @ host @ '':'' @ IstioIngressGatewayAddress bundle)
                          (IstioProxyHosts bundle))
              @ '' '' @ IstioProxyImage bundle
              @ concat (map (\<lambda>arg. '' '' @ arg) (IstioProxyArgs bundle))" .
  show ?thesis
  proof (intro conjI)
    show "launchWords bundle remoteDir = ?fixed @ ?hosts @ [IstioProxyImage bundle] @ IstioProxyArgs bundle"
      by (rule words)
  qed (simp_all add: processBundle_def joined)
qed

text \<open>The case of the repository's own test of \<open>processBundle\<close>.\<close>

lemma processBundle_test_case:
  "processBundle testBundle ''/etc/istio-proxy''
   = \<lparr>filesToCopy =
        [\<lparr>name = ''sidecar.env'', dir = ''/etc/istio-proxy'', perm = 420, data = ''KEY=VALUE''\<rparr>,
         \<lparr>name = ''istio-ca.pem'', dir = ''/etc/istio-proxy'', perm = 420, data = ''Istio CA certs''\<rparr>,
         \<lparr>name = ''istio-token'', dir = ''/etc/istio-proxy'', perm = 416, data = ''k8s SA token''\<rparr>],
      cmdsToExec =
        [\<lparr>cmd = ''docker rm --force istio-proxy'', required = False\<rparr>,
         \<lparr>cmd = ''docker run -d --name istio-proxy --restart unless-stopped --network host '' @
                 ''-v /etc/istio-proxy/istio-ca.pem:/var/run/secrets/istio/root-cert.pem '' @
                 ''-v /etc/istio-proxy/istio-token:/var/run/secrets/tokens/istio-token '' @
                 ''--env-file /etc/istio-proxy/sidecar.env '' @
                 ''--add-host istiod.istio-system.svc:1.2.3.4 '' @
                 ''--add-host zipkin.istio-monitoring.svc:1.2.3.4 '' @
                 ''proxyv2:latest '' @
                 ''proxy sidecar'',
           required = True\<rparr>]\<rparr>"
  by (simp add: processBundle_def launchWords_def testBundle_def)

section \<open>Theorems: tree walker\<close>

lemma validateLeaf_no_required:
  assumes "\<And>p. \<not> mapAt req p" and "e \<in> set (validateLeaf U req V path val cr)"
  shows "\<not> isRequiredNotSet e"
  using assms by (auto simp: validateLeaf_def Let_def split: if_splits option.splits)


lemma validateMapKeys_no_required:
  assumes "\<And>p. \<not> mapAt req p" and "\<forall>e \<in> set errs. \<not> isRequiredNotSet e"
  shows "\<forall>e \<in> set (validateMapKeys U req V ents newPath cr errs). \<not> isRequiredNotSet e"
  using assms(2)
proof (induction ents arbitrary: errs)
  case Nil
  then show ?case by simp
next
  case (Cons kv ents)
  obtain k v where kv: "kv = (k, v)" by (cases kv)
  have "\<forall>e \<in> set (AppendErrs errs (validateLeaf U req V (newPath @ [k]) (Reflected (Some v)) cr)). \<not> isRequiredNotSet e"
    using Cons.prems validateLeaf_no_required [OF assms(1), of _ U V "newPath @ [k]" "Reflected (Some v)" cr]
    by (auto simp: AppendErrs_def)
  then show ?case unfolding kv validateMapKeys.simps Let_def
    by (rule Cons.IH)
qed

lemma Validate_NilIface: "Validate U req V NilIface path cr = Returns []"
  by (subst Validate.simps) simp

lemma Validate_IsStruct: "IsStruct U structPtr \<Longrightarrow> Validate U req V structPtr path cr = Returns []"
  by (subst Validate.simps) simp

lemma Validate_not_IsPtr:
  "structPtr \<noteq> NilIface \<Longrightarrow> \<not> IsStruct U structPtr \<Longrightarrow> \<not> IsPtr U structPtr \<Longrightarrow>
   Validate U req V structPtr path cr = Returns [ExpectedPtr (PathString U path) structPtr]"
  by (subst Validate.simps) (simp add: NewErrs_def)

lemma Validate_pointer:
  "\<not> IsStruct U (Dyn (GPtr structElems)) \<Longrightarrow> IsPtr U (Dyn (GPtr structElems)) \<Longrightarrow>
   Validate U req V (Dyn (GPtr structElems)) path cr =
     (if \<not> IsStruct U (Reflected structElems)
        then Returns [ExpectedStruct (PathString U path) structElems]
      else if IsNilOrInvalidValue U structElems then Returns []
      else (case structElems of
              Some (GStruct flds) \<Rightarrow> validateFields U req V flds path cr []
            | _ \<Rightarrow> Panics))"
  by (subst Validate.simps) (simp add: NewErrs_def)

lemma Validate_not_pointer_kind:
  "structPtr \<noteq> NilIface \<Longrightarrow> \<not> IsStruct U structPtr \<Longrightarrow> IsPtr U structPtr \<Longrightarrow>
   (\<And>x. structPtr \<noteq> Dyn (GPtr x)) \<Longrightarrow> Validate U req V structPtr path cr = Panics"
  by (subst Validate.simps) (auto split: dyn.splits gval.splits)

lemma Validate_Returns_cases:
  assumes "Validate U req V structPtr path cr = Returns out"
  shows "out = [] \<or> out = [ExpectedPtr (PathString U path) structPtr]
     \<or> (\<exists>x. out = [ExpectedStruct (PathString U path) x])
     \<or> (\<exists>flds. structPtr = Dyn (GPtr (Some (GStruct flds)))
           \<and> \<not> IsStruct U structPtr \<and> IsPtr U structPtr
           \<and> IsStruct U (Reflected (Some (GStruct flds)))
           \<and> \<not> IsNilOrInvalidValue U (Some (GStruct flds))
           \<and> validateFields U req V flds path cr [] = Returns out)"
proof -
  consider "structPtr = NilIface" | "IsStruct U structPtr"
    | "structPtr \<noteq> NilIface" "\<not> IsStruct U structPtr" "\<not> IsPtr U structPtr"
    | "structPtr \<noteq> NilIface" "\<not> IsStruct U structPtr" "IsPtr U structPtr" "\<And>x. structPtr \<noteq> Dyn (GPtr x)"
    | x where "structPtr = Dyn (GPtr x)" "\<not> IsStruct U structPtr" "IsPtr U structPtr"
    by blast
  then show ?thesis
  proof cases
    case 1
    then show ?thesis using assms by (simp add: Validate_NilIface)
  next
    case 2
    then show ?thesis using assms by (simp add: Validate_IsStruct)
  next
    case 3
    then show ?thesis using assms by (simp add: Validate_not_IsPtr)
  next
    case 4
    then show ?thesis using assms by (simp add: Validate_not_pointer_kind)
  next
    case 5
    then show ?thesis using assms
      by (auto simp: Validate_pointer split: if_splits option.splits gval.splits)
  qed
qed

lemma walk_no_required:
  fixes U :: "('s, 'e) util"
  assumes req: "\<And>p. \<not> mapAt req p"
  shows "(\<forall>out. Validate U req V structPtr path cr = Returns out \<longrightarrow> (\<forall>e \<in> set out. \<not> isRequiredNotSet e))"
    and "(\<forall>out. (\<forall>e \<in> set errs. \<not> isRequiredNotSet e) \<longrightarrow>
            validateFields U req V flds path cr errs = Returns out \<longrightarrow> (\<forall>e \<in> set out. \<not> isRequiredNotSet e))"
    and "(\<forall>out. (\<forall>e \<in> set errs. \<not> isRequiredNotSet e) \<longrightarrow>
            validateSlice U req V fieldName exported i elems path cr errs = Returns out \<longrightarrow> (\<forall>e \<in> set out. \<not> isRequiredNotSet e))"
  using req
proof (induction U req V structPtr path cr and U req V flds path cr errs and U req V fieldName exported i elems path cr errs
    rule: Validate_validateFields_validateSlice.induct)
  case (1 U req validations structPtr path checkRequired)
  show ?case
  proof (intro allI impI)
    fix out
    assume run: "Validate U req validations structPtr path checkRequired = Returns out"
    from Validate_Returns_cases [OF run]
    consider "out = []" | "out = [ExpectedPtr (PathString U path) structPtr]"
      | x where "out = [ExpectedStruct (PathString U path) x]"
      | flds where "structPtr = Dyn (GPtr (Some (GStruct flds)))"
          "\<not> IsStruct U structPtr" "IsPtr U structPtr"
          "IsStruct U (Reflected (Some (GStruct flds)))"
          "\<not> IsNilOrInvalidValue U (Some (GStruct flds))"
          "validateFields U req validations flds path checkRequired [] = Returns out"
      by blast
    then show "\<forall>e \<in> set out. \<not> isRequiredNotSet e"
    proof cases
      case 4
      have np: "structPtr \<noteq> NilIface" using 4(1) by simp
      have p3: "\<not> \<not> IsPtr U structPtr" using 4(3) by simp
      have p6: "\<not> \<not> IsStruct U (Reflected (Some (GStruct flds)))" using 4(4) by simp
      note "1.IH" [OF np 4(2) p3 4(1) refl p6 4(5) refl refl "1.prems"]
      then show ?thesis using 4(6) by simp
    qed simp_all
  qed
next
  case (2 U req validations path checkRequired errs)
  show ?case by simp
next
  case (3 U req validations fieldName tag exported fieldValue rest path checkRequired errs)
  note leaf = validateLeaf_no_required [OF "3.prems"]
  note keys = validateMapKeys_no_required [OF "3.prems"]
  show ?case
  proof (intro allI impI)
    fix out
    assume acc: "\<forall>e \<in> set errs. \<not> isRequiredNotSet e"
      and run: "validateFields U req validations ((fieldName, tag, exported, fieldValue) # rest) path checkRequired errs = Returns out"
    show "\<forall>e \<in> set out. \<not> isRequiredNotSet e"
    proof (cases "tag = Some ''-''")
      case True
      have "validateFields U req validations rest path checkRequired errs = Returns out"
        using run True by simp
      then show ?thesis using "3.IH"(1) [OF True "3.prems"] acc by blast
    next
      case False
      show ?thesis
      proof (cases fieldValue)
        case (GStruct fs)
        from run False GStruct obtain es where ex: "exported"
          and v: "Validate U req validations (Dyn (GPtr (Some fieldValue))) (path @ [fieldName]) checkRequired = Returns es"
          and r: "validateFields U req validations rest path checkRequired (AppendErrs errs es) = Returns out"
          by (auto split: if_splits outcome.splits)
        have "\<forall>e \<in> set es. \<not> isRequiredNotSet e"
          using "3.IH"(2) [OF False GStruct _ "3.prems"] ex v by blast
        then have "\<forall>e \<in> set (AppendErrs errs es). \<not> isRequiredNotSet e"
          using acc by (auto simp: AppendErrs_def)
        then show ?thesis
          using "3.IH"(3) [OF False GStruct _ v "3.prems"] ex r by blast
      next
        case (GMap m)
        define errs1 where "errs1 = AppendErrs errs (validateLeaf U req validations (path @ [fieldName]) (Dyn fieldValue) checkRequired)"
        define errs2 where "errs2 = validateMapKeys U req validations (entries m) (path @ [fieldName]) checkRequired errs1"
        from run False GMap have ex: "exported"
          and r: "validateFields U req validations rest path checkRequired errs2 = Returns out"
          by (auto simp: Let_def errs1_def errs2_def split: if_splits)
        have "\<forall>e \<in> set errs1. \<not> isRequiredNotSet e"
          using acc by (auto simp: errs1_def AppendErrs_def dest: leaf)
        then have "\<forall>e \<in> set errs2. \<not> isRequiredNotSet e"
          unfolding errs2_def by (rule keys)
        then show ?thesis
          using "3.IH"(4) [OF False GMap _ refl errs1_def [symmetric, unfolded errs1_def] refl "3.prems"] ex r
          unfolding errs2_def errs1_def by blast
      next
        case (GSlice xs)
        from run False GSlice obtain errs1 where
          v: "validateSlice U req validations fieldName exported 0 (entries xs) path checkRequired errs = Returns errs1"
          and r: "validateFields U req validations rest path checkRequired errs1 = Returns out"
          by (auto split: outcome.splits)
        have "\<forall>e \<in> set errs1. \<not> isRequiredNotSet e"
          using "3.IH"(5) [OF False GSlice "3.prems"] acc v by blast
        then show ?thesis
          using "3.IH"(6) [OF False GSlice v "3.prems"] r by blast
      next
        case (GPtr pointee)
        show ?thesis
        proof (cases "IsNilOrInvalidValue U pointee")
          case True
          have "validateFields U req validations rest path checkRequired errs = Returns out"
            using run False GPtr True by simp
          then show ?thesis
            using "3.IH"(7) [OF False GPtr True "3.prems"] acc by blast
        next
          case nn: False
          show ?thesis
          proof (cases "\<exists>fs. pointee = Some (GStruct fs)")
            case True
            then obtain fs where p: "pointee = Some (GStruct fs)" by blast
            from run False GPtr nn p obtain es where ex: "exported"
              and v: "Validate U req validations (Dyn fieldValue) (path @ [fieldName]) checkRequired = Returns es"
              and r: "validateFields U req validations rest path checkRequired (AppendErrs errs es) = Returns out"
              by (auto simp: Let_def split: if_splits outcome.splits)
            have "\<forall>e \<in> set es. \<not> isRequiredNotSet e"
              using "3.IH"(9) [OF False GPtr nn refl p refl _ "3.prems"] ex v by blast
            then have "\<forall>e \<in> set (AppendErrs errs es). \<not> isRequiredNotSet e"
              using acc by (auto simp: AppendErrs_def)
            then show ?thesis
              using "3.IH"(10) [OF False GPtr nn refl p refl _ v "3.prems"] ex r by blast
          next
            case np: False
            define errs1 where "errs1 = AppendErrs errs (validateLeaf U req validations (path @ [fieldName]) (Reflected (Some fieldValue)) checkRequired)"
            have r: "validateFields U req validations rest path checkRequired errs1 = Returns out"
              using run False GPtr nn np
              by (auto simp: Let_def errs1_def split: option.splits gval.splits)
            have a1: "\<forall>e \<in> set errs1. \<not> isRequiredNotSet e"
              using acc by (auto simp: errs1_def AppendErrs_def dest: leaf)
            show ?thesis
            proof (cases pointee)
              case None
              show ?thesis
                using "3.IH"(8) [OF False GPtr nn refl None "3.prems"] a1 r
                unfolding errs1_def by blast
            next
              case (Some pv)
              then have "\<And>fs. pv \<noteq> GStruct fs" using np by simp
              then show ?thesis
                using "3.IH"(11-16) [OF False GPtr nn refl Some _ "3.prems"] a1 r
                unfolding errs1_def by (cases pv) blast+
            qed
          qed
        qed
      next
        case (GIface x)
        show ?thesis
          using run False GIface acc "3.IH"(17) [OF False GIface _ "3.prems"] "3.IH"(18) [OF False GIface _ "3.prems"]
          by (auto simp: AppendErrs_def dest: leaf split: if_splits)
      next
        case (GString x)
        show ?thesis
          using run False GString acc "3.IH"(19) [OF False GString _ "3.prems"] "3.IH"(20) [OF False GString _ "3.prems"]
          by (auto simp: AppendErrs_def dest: leaf split: if_splits)
      next
        case (GScalar x)
        show ?thesis
          using run False GScalar acc "3.IH"(21) [OF False GScalar _ "3.prems"] "3.IH"(22) [OF False GScalar _ "3.prems"]
          by (auto simp: AppendErrs_def dest: leaf split: if_splits)
      qed
    qed
  qed
next
  case (4 U req validations fieldName exported i path checkRequired errs)
  show ?case by simp
next
  case (5 U req validations fieldName exported i elem rest path checkRequired errs)
  note leaf = validateLeaf_no_required [OF "5.prems"]
  show ?case
  proof (intro allI impI)
    fix out
    assume acc: "\<forall>e \<in> set errs. \<not> isRequiredNotSet e"
      and run: "validateSlice U req validations fieldName exported i (elem # rest) path checkRequired errs = Returns out"
    have ex: "exported" using run by (auto split: if_splits)
    show "\<forall>e \<in> set out. \<not> isRequiredNotSet e"
    proof (cases "IsStruct U (Interface elem) \<or> IsPtr U (Interface elem)")
      case True
      from run ex True obtain es where
        v: "Validate U req validations (Interface elem) (path @ [indexPathForSlice U fieldName i]) checkRequired = Returns es"
        and r: "validateSlice U req validations fieldName exported (Suc i) rest path checkRequired (AppendErrs errs es) = Returns out"
        by (auto simp: Let_def split: outcome.splits)
      have "\<forall>e \<in> set es. \<not> isRequiredNotSet e"
        using "5.IH"(1) [OF _ refl refl True "5.prems"] ex v by blast
      then have "\<forall>e \<in> set (AppendErrs errs es). \<not> isRequiredNotSet e"
        using acc by (auto simp: AppendErrs_def)
      then show ?thesis
        using "5.IH"(2) [OF _ refl refl True v "5.prems"] ex r by blast
    next
      case False
      define errs1 where "errs1 = AppendErrs errs (validateLeaf U req validations (path @ [indexPathForSlice U fieldName i]) (Interface elem) checkRequired)"
      have r: "validateSlice U req validations fieldName exported (Suc i) rest path checkRequired errs1 = Returns out"
        using run ex False by (auto simp: Let_def errs1_def)
      have a1: "\<forall>e \<in> set errs1. \<not> isRequiredNotSet e"
        using acc by (auto simp: errs1_def AppendErrs_def dest: leaf)
      show ?thesis
        using "5.IH"(3) [OF _ refl refl False "5.prems"] ex a1 r
        unfolding errs1_def by blast
    qed
  qed
qed

text \<open>
  C2, as stated, fails: a bare struct value is not a reference to a struct, and
  \<open>Validate\<close> skips it, returning no error at all.
\<close>

theorem Validate_bare_struct_no_error:
  "Validate specUtil requiredValues exampleRules (Dyn exampleSpec) [] True = Returns []"
  by (simp add: Validate_IsStruct specUtil_def exampleSpec_def)

text \<open>
  C2, amended. A nil input and a bare struct value are skipped: \<open>Validate\<close> returns
  the empty error list. Every other input that is not a pointer yields exactly one
  type-mismatch error (pointer expected), and a pointer whose pointee \<open>util.IsStruct\<close>
  rejects yields exactly one type-mismatch error (struct expected).
\<close>

theorem Validate_type_mismatch:
  "Validate U req validations NilIface path checkRequired = Returns [] \<and>
   (IsStruct U structPtr \<longrightarrow> Validate U req validations structPtr path checkRequired = Returns []) \<and>
   (structPtr \<noteq> NilIface \<and> \<not> IsStruct U structPtr \<and> \<not> IsPtr U structPtr \<longrightarrow>
      Validate U req validations structPtr path checkRequired
        = Returns [ExpectedPtr (PathString U path) structPtr]) \<and>
   (\<not> IsStruct U (Dyn (GPtr pointee)) \<and> IsPtr U (Dyn (GPtr pointee)) \<and> \<not> IsStruct U (Reflected pointee) \<longrightarrow>
      Validate U req validations (Dyn (GPtr pointee)) path checkRequired
        = Returns [ExpectedStruct (PathString U path) pointee])"
  by (simp add: Validate_NilIface Validate_IsStruct Validate_not_IsPtr Validate_pointer)

theorem Validate_type_mismatch_witness:
  "Validate specUtil exampleRequired exampleRules NilIface [''Hub''] True = Returns [] \<and>
   IsStruct specUtil (Dyn exampleSpec) \<and>
   Validate specUtil exampleRequired exampleRules (Dyn exampleSpec) [''Hub''] True = Returns [] \<and>
   Dyn (GString ''x'') \<noteq> NilIface \<and> \<not> IsStruct specUtil (Dyn (GString ''x'')) \<and>
   \<not> IsPtr specUtil (Dyn (GString ''x'')) \<and>
   Validate specUtil exampleRequired exampleRules (Dyn (GString ''x'')) [''Hub''] True
     = Returns [ExpectedPtr ''Hub'' (Dyn (GString ''x''))] \<and>
   \<not> IsStruct specUtil (Dyn (GPtr (Some (GString ''x'')))) \<and>
   IsPtr specUtil (Dyn (GPtr (Some (GString ''x'')))) \<and>
   \<not> IsStruct specUtil (Reflected (Some (GString ''x''))) \<and>
   Validate specUtil exampleRequired exampleRules (Dyn (GPtr (Some (GString ''x'')))) [''Hub''] True
     = Returns [ExpectedStruct ''Hub'' (Some (GString ''x''))]"
  using Validate_type_mismatch [of specUtil exampleRequired exampleRules "[''Hub'']" True
      "Dyn exampleSpec" "Some (GString ''x'')"]
    Validate_type_mismatch [of specUtil exampleRequired exampleRules "[''Hub'']" True
      "Dyn (GString ''x'')" "Some (GString ''x'')"]
  by (simp add: specUtil_def exampleSpec_def dotted_def)

text \<open>
  C9. For an empty or absent leaf value, \<open>validateLeaf\<close> returns no error, unless
  required-field checking is on and the table marks the rendered path: then it returns
  exactly one error, which carries the display form of that path. With
  \<open>checkRequired\<close> false it returns no error. No rule is looked up or run: the result
  is the same for every rule table and every lookup function.
\<close>

theorem validateLeaf_empty_value:
  assumes "IsValueNil U val \<or> IsEmptyString U val"
  shows "validateLeaf U req validations path val checkRequired =
           (if checkRequired \<and> mapAt req (PathString U path)
            then [RequiredNotSet (ToYAMLPathString U (PathString U path))] else [])
       \<and> validateLeaf U req validations path val False = []
       \<and> validateLeaf (U\<lparr>getValidationFuncForPath := g\<rparr>) req validations' path val checkRequired
           = validateLeaf U req validations path val checkRequired"
  using assms by (auto simp: validateLeaf_def NewErrs_def)

theorem validateLeaf_empty_value_witness:
  "(IsValueNil specUtil (Dyn (GString [])) \<or> IsEmptyString specUtil (Dyn (GString []))) \<and>
   validateLeaf specUtil exampleRequired exampleRules [''Hub''] (Dyn (GString [])) True
     = [RequiredNotSet ''Hub''] \<and>
   validateLeaf specUtil exampleRequired exampleRules [''Hub''] (Dyn (GString [])) False = [] \<and>
   validateLeaf specUtil exampleRequired exampleRules [''Tag''] (Dyn (GString [])) True = []"
proof -
  have e: "IsValueNil specUtil (Dyn (GString [])) \<or> IsEmptyString specUtil (Dyn (GString []))"
    by (simp add: specUtil_def)
  show ?thesis
    using e validateLeaf_empty_value [OF e, of exampleRequired exampleRules "[''Hub'']" True exactRule exampleRules]
      validateLeaf_empty_value [OF e, of exampleRequired exampleRules "[''Tag'']" True exactRule exampleRules]
    by (simp add: specUtil_def exampleRequired_def dotted_def displayPath_def mapAt_def)
qed

text \<open>
  C10. The table of required values is empty, so whatever the spec and whichever the
  value of \<open>checkRequiredFields\<close>, the errors that \<open>CheckIstioOperatorSpec\<close> returns
  hold no required-field error.
\<close>

theorem CheckIstioOperatorSpec_no_required_error:
  assumes "CheckIstioOperatorSpec U DefaultValidations is checkRequiredFields = Returns errs"
  shows "\<not> mapAt requiredValues q \<and> RequiredNotSet p \<notin> set errs"
proof -
  have empty: "\<not> mapAt requiredValues k" for k
    by (simp add: mapAt_def requiredValues_def)
  have "RequiredNotSet p \<notin> set errs"
  proof (cases "is")
    case None
    then show ?thesis
      using assms by (simp add: CheckIstioOperatorSpec_def)
  next
    case (Some spec)
    then obtain es where
      v: "Validate U requiredValues DefaultValidations (Dyn (GPtr (Some spec))) [] checkRequiredFields = Returns es"
      and e: "errs = AppendErrs [] es"
      using assms by (auto simp: CheckIstioOperatorSpec_def split: outcome.splits)
    have "\<forall>x \<in> set es. \<not> isRequiredNotSet x"
      using walk_no_required(1) [of requiredValues U DefaultValidations "Dyn (GPtr (Some spec))" "[]"
          checkRequiredFields] empty v
      by blast
    then show ?thesis
      using e by (auto simp: AppendErrs_def)
  qed
  then show ?thesis using empty by simp
qed

theorem CheckIstioOperatorSpec_no_required_error_witness:
  "CheckIstioOperatorSpec specUtil exampleRules (Some exampleSpec) True
     = Returns [RuleError ''invalid value at Tag''] \<and>
   \<not> mapAt requiredValues ''Hub'' \<and>
   RequiredNotSet ''Hub'' \<notin> set [RuleError ''invalid value at Tag'' :: (nat, string) verr]"
proof -
  have r: "CheckIstioOperatorSpec specUtil exampleRules (Some exampleSpec) True
     = Returns [RuleError ''invalid value at Tag'']"
    by (simp add: CheckIstioOperatorSpec_def Validate_pointer specUtil_def exampleSpec_def
        exampleRules_def requiredValues_def validateLeaf_def mapAt_def AppendErrs_def NewErrs_def
        Interface_def entries_def dotted_def exactRule_def rejectValue_def indexed_def)
  show ?thesis
    using r CheckIstioOperatorSpec_no_required_error [OF r, of "''Hub''" "''Hub''"] by simp
qed

text \<open>
  With a table that marks \<open>Hub\<close> as required the same walk does report the empty hub:
  the required-field branch is live in \<open>validateLeaf\<close> and is closed off only by the
  empty table.
\<close>

lemma Validate_required_with_table:
  "Validate specUtil exampleRequired exampleRules (Dyn (GPtr (Some exampleSpec))) [] True
     = Returns [RequiredNotSet ''Hub'', RuleError ''invalid value at Tag'']"
  by (simp add: Validate_pointer specUtil_def exampleSpec_def
      exampleRules_def exampleRequired_def validateLeaf_def mapAt_def AppendErrs_def NewErrs_def
      Interface_def entries_def dotted_def displayPath_def exactRule_def rejectValue_def indexed_def)

end
